theory Spec2Isabelle
  imports Complex_Main "HOL-Library.Product_Lexorder" "HOL-Library.Monad_Syntax"
begin

section \<open>Data model (cppn.py)\<close>

text \<open>\<^verbatim>\<open>class NodeType(IntEnum)\<close>: the kind of a node.\<close>

datatype NodeType = INPUT | OUTPUT | HIDDEN

text \<open>
  A tensor is the list of its entries in row-major order. Within one evaluation every tensor held
  by a node has the same number of entries (one on the serial path, \<open>res_h * res_w\<close> on the
  parallel path); a shape is kept only for the assembled image.
\<close>

type_synonym tensor = "real list"

text \<open>
  \<^verbatim>\<open>class Node(Gene)\<close>. The activation is kept by the name of the function
  (\<^verbatim>\<open>activation.__name__\<close>); the functions themselves live in the module
  \<^verbatim>\<open>activation_functions\<close>, which is a parameter of the evaluation.
  \<^verbatim>\<open>sum_inputs\<close> and \<^verbatim>\<open>outputs\<close> are \<^verbatim>\<open>None\<close> until they are set.
\<close>

record Node =
  node_id :: int
  activation :: string
  node_type :: NodeType
  layer :: int
  sum_inputs :: "tensor option"
  outputs :: "tensor option"

text \<open>\<^verbatim>\<open>class Connection(Gene)\<close>; \<open>cx_key\<close> is \<^verbatim>\<open>key_\<close>, the pair (from, to).\<close>

record Connection =
  cx_key :: "int \<times> int"
  weight :: real
  enabled :: bool
  is_recurrent :: bool

text \<open>
  The configuration class is not among the source files; the record lists the fields that
  cppn.py reads from it.
\<close>

record Config =
  allow_recurrent :: bool
  use_radial_distance :: bool
  use_input_bias :: bool
  color_mode :: string
  num_outputs :: nat
  hidden_nodes_at_start :: nat
  output_activation :: "string option"
  activations :: "string list"
  allow_input_activation_mutation :: bool
  init_connection_probability :: real
  max_weight :: real
  weight_threshold :: real
  weight_mutation_max :: real
  prob_weight_reinit :: real
  prob_reenable_connection :: real
  prob_add_node :: real
  prob_add_connection :: real
  prob_remove_node :: real
  prob_disable_connection :: real
  prob_mutate_weight :: real
  prob_mutate_activation :: real
  res_h :: nat
  res_w :: nat
  normalize_outputs :: bool

text \<open>
  \<^verbatim>\<open>class CPPN\<close>. Both genomes are Python dicts, which keep insertion order and hold one
  entry per key. Every insertion in the source stores a gene under its own key
  (\<^verbatim>\<open>self.node_genome[new_node.key] = new_node\<close>,
  \<^verbatim>\<open>self.connection_genome[new_cx.key] = new_cx\<close>), so a dict is modelled by the list of its
  values in insertion order, looked up by \<open>node_id\<close> and \<open>cx_key\<close>; that a dict holds one entry
  per key is the distinctness of these keys.
  An image is a shape with the entries in row-major order.
\<close>

record CPPN =
  config :: Config
  image :: "(nat list \<times> tensor) option"
  node_genome :: "Node list"
  connection_genome :: "Connection list"
  selected :: bool
  species_id :: nat
  cppn_id :: nat
  parents :: "nat \<times> nat"
  fitness :: real
  novelty :: real
  adjusted_fitness :: real
  n_inputs :: nat
  n_outputs :: nat

text \<open>
  The two class attributes that the methods below read and write:
  \<^verbatim>\<open>CPPN.node_indexer\<close> (\<open>None\<close>, or the next value of the \<^verbatim>\<open>itertools.count\<close>) and
  \<^verbatim>\<open>CPPN.current_id\<close>.
\<close>

record Globals =
  node_indexer :: "int option"
  current_id :: nat

definition input_nodes :: "CPPN \<Rightarrow> Node list" where
  "input_nodes g = filter (\<lambda>n. node_type n = INPUT) (node_genome g)"

definition output_nodes :: "CPPN \<Rightarrow> Node list" where
  "output_nodes g = filter (\<lambda>n. node_type n = OUTPUT) (node_genome g)"

definition hidden_nodes :: "CPPN \<Rightarrow> Node list" where
  "hidden_nodes g = filter (\<lambda>n. node_type n = HIDDEN) (node_genome g)"

definition enabled_connections :: "CPPN \<Rightarrow> Connection list" where
  "enabled_connections g = filter enabled (connection_genome g)"

text \<open>\<^verbatim>\<open>nodes[node_id]\<close>: the dict lookup, \<open>None\<close> where Python raises KeyError.\<close>

definition find_node_with_id :: "Node list \<Rightarrow> int \<Rightarrow> Node option" where
  "find_node_with_id nodes i = find (\<lambda>n. node_id n = i) nodes"

text \<open>\<^verbatim>\<open>self.connection_genome.get(key)\<close>.\<close>

definition connection_get :: "Connection list \<Rightarrow> int \<times> int \<Rightarrow> Connection option" where
  "connection_get cxs k = find (\<lambda>c. cx_key c = k) cxs"

text \<open>
  The invariant of the data model: the keys of each dict are distinct, and both endpoints of every
  connection are keys of the node genome.
\<close>

definition endpoints_exist :: "CPPN \<Rightarrow> bool" where
  "endpoints_exist g =
     list_all (\<lambda>c. fst (cx_key c) \<in> set (map node_id (node_genome g)) \<and>
                    snd (cx_key c) \<in> set (map node_id (node_genome g)))
       (connection_genome g)"

definition wf_genome :: "CPPN \<Rightarrow> bool" where
  "wf_genome g =
     (distinct (map node_id (node_genome g)) \<and>
      distinct (map cx_key (connection_genome g)) \<and>
      endpoints_exist g)"

section \<open>Topology (graph\_util.py)\<close>

text \<open>
  \<^verbatim>\<open>is_valid_connection(nodes, key, config)\<close>; \<open>None\<close> is the KeyError of
  \<^verbatim>\<open>nodes[from_node]\<close>.
\<close>

definition is_valid_connection :: "Node list \<Rightarrow> int \<times> int \<Rightarrow> Config \<Rightarrow> bool option" where
  "is_valid_connection nodes k cfg =
     (case find_node_with_id nodes (fst k) of
        None \<Rightarrow> None
      | Some from_node \<Rightarrow>
          (case find_node_with_id nodes (snd k) of
             None \<Rightarrow> None
           | Some to_node \<Rightarrow>
               if layer from_node = layer to_node then Some False
               else if \<not> allow_recurrent cfg \<and> layer from_node > layer to_node then Some False
               else Some True))"

text \<open>\<^verbatim>\<open>get_ids_from_individual\<close>: every connection counts, enabled or not.\<close>

definition get_ids_from_individual :: "CPPN \<Rightarrow> int list \<times> int list \<times> (int \<times> int) list" where
  "get_ids_from_individual individual =
     (map node_id (input_nodes individual),
      map node_id (output_nodes individual),
      map cx_key (connection_genome individual))"

text \<open>\<^verbatim>\<open>set(a for (a, b) in connections if b in s and a not in s)\<close>\<close>

definition consumed_by :: "int set \<Rightarrow> (int \<times> int) list \<Rightarrow> int set" where
  "consumed_by s connections = set (map fst (filter (\<lambda>(a, b). b \<in> s \<and> a \<notin> s) connections))"

text \<open>
  The loop of \<^verbatim>\<open>required_for_output\<close> on the pair (required, s). It stops as soon as no new
  node feeds \<open>s\<close>, or all new ones are inputs.
\<close>

function required_loop :: "int list \<Rightarrow> (int \<times> int) list \<Rightarrow> int set \<Rightarrow> int set \<Rightarrow> int set" where
  "required_loop inputs connections required s =
     (if consumed_by s connections = {} then required
      else if consumed_by s connections - set inputs = {} then required
      else required_loop inputs connections
             (required \<union> (consumed_by s connections - set inputs))
             (s \<union> consumed_by s connections))"
  by pat_completeness auto

termination required_loop
proof (relation "measure (\<lambda>(inputs, connections, required, s). card (fst ` set connections - s))")
  show "wf (measure (\<lambda>(inputs, connections, required, s). card (fst ` set connections - s)))"
    by simp
next
  fix inputs :: "int list" and connections :: "(int \<times> int) list" and required s :: "int set"
  assume ne: "consumed_by s connections \<noteq> {}"
  let ?t = "consumed_by s connections"
  let ?U = "fst ` set connections"
  have sub: "?t \<subseteq> ?U - s" by (auto simp: consumed_by_def)
  from ne obtain x where x: "x \<in> ?t" by blast
  have "?U - (s \<union> ?t) \<subset> ?U - s"
    using x sub by blast
  then have "card (?U - (s \<union> ?t)) < card (?U - s)"
    by (intro psubset_card_mono) simp_all
  then show "((inputs, connections, required \<union> (?t - set inputs), s \<union> ?t),
              (inputs, connections, required, s))
             \<in> measure (\<lambda>(inputs, connections, required, s). card (fst ` set connections - s))"
    by simp
qed

declare required_loop.simps [simp del]

definition required_for_output :: "int list \<Rightarrow> int list \<Rightarrow> (int \<times> int) list \<Rightarrow> int set" where
  "required_for_output inputs outs connections =
     required_loop inputs connections (set outs) (set outs)"

text \<open>
  \<^verbatim>\<open>get_candidate_nodes(s, connections)\<close>. A Python set that the source iterates over is
  modelled by a list without duplicates; Python leaves the iteration order of a set open, the model
  takes the order of first occurrence in the connection list.
\<close>

definition get_candidate_nodes :: "int set \<Rightarrow> (int \<times> int) list \<Rightarrow> int list" where
  "get_candidate_nodes s connections =
     remdups (map snd (filter (\<lambda>(a, b). a \<in> s \<and> b \<notin> s) connections))"

text \<open>
  The next layer \<open>t\<close> of \<^verbatim>\<open>feed_forward_layers\<close>: the candidates that are required and whose
  every incoming connection starts in \<open>s\<close>.
\<close>

definition next_layer :: "(int \<times> int) list \<Rightarrow> int set \<Rightarrow> int set \<Rightarrow> int list" where
  "next_layer connections required s =
     filter (\<lambda>n. n \<in> required \<and>
                 list_all (\<lambda>(a, b). a \<in> s) (filter (\<lambda>(a, b). b = n) connections))
       (get_candidate_nodes s connections)"

function layers_loop ::
  "(int \<times> int) list \<Rightarrow> int set \<Rightarrow> int set \<Rightarrow> int list list \<Rightarrow> int list list" where
  "layers_loop connections required s layers =
     (if next_layer connections required s = [] then layers
      else layers_loop connections required
             (s \<union> set (next_layer connections required s))
             (layers @ [next_layer connections required s]))"
  by pat_completeness auto

termination layers_loop
proof (relation "measure (\<lambda>(connections, required, s, layers). card (snd ` set connections - s))")
  show "wf (measure (\<lambda>(connections, required, s, layers). card (snd ` set connections - s)))"
    by simp
next
  fix connections :: "(int \<times> int) list" and required s :: "int set" and layers :: "int list list"
  assume ne: "next_layer connections required s \<noteq> []"
  let ?t = "set (next_layer connections required s)"
  let ?U = "snd ` set connections"
  have sub: "?t \<subseteq> ?U - s"
    by (auto simp: next_layer_def get_candidate_nodes_def)
  from ne obtain x where x: "x \<in> ?t" by (cases "next_layer connections required s") auto
  have "?U - (s \<union> ?t) \<subset> ?U - s"
    using x sub by blast
  then have "card (?U - (s \<union> ?t)) < card (?U - s)"
    by (intro psubset_card_mono) simp_all
  then show "((connections, required, s \<union> ?t, layers @ [next_layer connections required s]),
              (connections, required, s, layers))
             \<in> measure (\<lambda>(connections, required, s, layers). card (snd ` set connections - s))"
    by simp
qed

declare layers_loop.simps [simp del]

definition feed_forward_layers :: "CPPN \<Rightarrow> int list list" where
  "feed_forward_layers individual =
     (case get_ids_from_individual individual of
        (inputs, outs, connections) \<Rightarrow>
          layers_loop connections (required_for_output inputs outs connections) (set inputs) [])"

text \<open>
  \<^verbatim>\<open>get_incoming_connections(individual, node)\<close>: the enabled connections that end at the node.
\<close>

definition get_incoming_connections :: "CPPN \<Rightarrow> Node \<Rightarrow> Connection list" where
  "get_incoming_connections individual n =
     filter (\<lambda>x. snd (cx_key x) = node_id n) (enabled_connections individual)"

section \<open>Layer assignment (cppn.py, \<^verbatim>\<open>update_node_layers\<close>)\<close>

text \<open>
  \<^verbatim>\<open>for node_id in layer: node = find_node_with_id(self.node_genome, node_id); node.layer = layer_index + 1\<close>.
  All members of a layer get the same value, so the model writes the whole layer at once; a member
  that is no key of the node genome is the KeyError.
\<close>

definition assign_layer :: "nat \<Rightarrow> int list \<Rightarrow> Node list \<Rightarrow> Node list option" where
  "assign_layer layer_index lay nodes =
     (if set lay \<subseteq> set (map node_id nodes)
      then Some (map (\<lambda>n. if node_id n \<in> set lay then n\<lparr>layer := int layer_index + 1\<rparr> else n) nodes)
      else None)"

fun assign_layers :: "nat \<Rightarrow> int list list \<Rightarrow> Node list \<Rightarrow> Node list option" where
  "assign_layers layer_index [] nodes = Some nodes"
| "assign_layers layer_index (lay # rest) nodes =
     (case assign_layer layer_index lay nodes of
        None \<Rightarrow> None
      | Some nodes' \<Rightarrow> assign_layers (Suc layer_index) rest nodes')"

text \<open>\<^verbatim>\<open>for _, node in self.input_nodes().items(): node.layer = 0\<close>\<close>

definition zero_input_layers :: "Node list \<Rightarrow> Node list" where
  "zero_input_layers nodes = map (\<lambda>n. if node_type n = INPUT then n\<lparr>layer := 0\<rparr> else n) nodes"

definition update_node_layers :: "CPPN \<Rightarrow> CPPN option" where
  "update_node_layers g =
     map_option (\<lambda>nodes. g\<lparr>node_genome := nodes\<rparr>)
       (assign_layers 0 (feed_forward_layers g) (zero_input_layers (node_genome g)))"

text \<open>The layer stored for a node id, if the id is in the node genome.\<close>

definition layer_of :: "CPPN \<Rightarrow> int \<Rightarrow> int option" where
  "layer_of g i = map_option layer (find_node_with_id (node_genome g) i)"

section \<open>Random draws\<close>

text \<open>
  The source draws from torch's and Python's random number generators. Each draw is a parameter
  of the model: \<open>u\<close> is a value of \<^verbatim>\<open>torch.rand(1)[0]\<close> (a real in \<open>[0, 1)\<close>), \<open>perm\<close> a value of
  \<^verbatim>\<open>torch.randperm(n)\<close>, and an index \<open>k\<close> picks the element that \<^verbatim>\<open>random.choice\<close> returns
  (taken modulo the length, so that every \<open>k\<close> names an element).
\<close>

definition random_uniform :: "real \<Rightarrow> real \<Rightarrow> real \<Rightarrow> real" where
  "random_uniform u low high = u * (high - low) + low"

definition is_randperm :: "nat \<Rightarrow> nat list \<Rightarrow> bool" where
  "is_randperm n perm = (distinct perm \<and> set perm = {0..<n})"

text \<open>
  \<^verbatim>\<open>random_choice(choices, count, replace=False)\<close>:
  \<^verbatim>\<open>indxs = torch.randperm(len(choices))[:count]\<close>, then the choices at these indices.
\<close>

definition random_choice :: "'a list \<Rightarrow> nat \<Rightarrow> nat list \<Rightarrow> 'a list" where
  "random_choice choices count perm = map (\<lambda>i. choices ! i) (take count perm)"

text \<open>\<^verbatim>\<open>random.choice(config.activations)\<close>; it raises IndexError on an empty list.\<close>

definition choose_random_function :: "Config \<Rightarrow> nat \<Rightarrow> string option" where
  "choose_random_function cfg k =
     (if activations cfg = [] then None
      else Some (activations cfg ! (k mod length (activations cfg))))"

definition random_weight :: "Config \<Rightarrow> real \<Rightarrow> real" where
  "random_weight cfg u = random_uniform u (- max_weight cfg) (max_weight cfg)"

section \<open>Mutation operators (cppn.py)\<close>

text \<open>
  \<^verbatim>\<open>get_new_node_id\<close>: the new id with the new state of \<^verbatim>\<open>CPPN.node_indexer\<close>; \<open>None\<close> is the
  failed assertion \<^verbatim>\<open>new_id not in self.node_genome.keys()\<close>. With no indexer and an empty node
  genome the source returns 0 and leaves the indexer unset.
\<close>

definition get_new_node_id :: "Node list \<Rightarrow> int option \<Rightarrow> (int \<times> int option) option" where
  "get_new_node_id nodes indexer =
     (if indexer = None \<and> nodes = [] then Some (0, None)
      else
        let new_id = (case indexer of
                        None \<Rightarrow> Max (set (map node_id nodes)) + 1
                      | Some c \<Rightarrow> c)
        in if new_id \<in> set (map node_id nodes) then None
           else Some (new_id, Some (new_id + 1)))"

text \<open>\<^verbatim>\<open>cx.enabled = v\<close> for the connection stored under the key \<open>k\<close>.\<close>

definition set_enabled :: "int \<times> int \<Rightarrow> bool \<Rightarrow> Connection list \<Rightarrow> Connection list" where
  "set_enabled k v cxs = map (\<lambda>c. if cx_key c = k then c\<lparr>enabled := v\<rparr> else c) cxs"

text \<open>
  \<^verbatim>\<open>self.connection_genome[new_cx.key] = new_cx\<close> after
  \<^verbatim>\<open>assert new_cx.key not in self.connection_genome.keys()\<close>.
\<close>

definition insert_new_connection :: "Connection \<Rightarrow> Connection list \<Rightarrow> Connection list option" where
  "insert_new_connection cx cxs =
     (if cx_key cx \<in> set (map cx_key cxs) then None else Some (cxs @ [cx]))"

definition new_connection :: "int \<times> int \<Rightarrow> real \<Rightarrow> Connection" where
  "new_connection k w = \<lparr>cx_key = k, weight = w, enabled = True, is_recurrent = False\<rparr>"

definition new_node :: "int \<Rightarrow> string \<Rightarrow> NodeType \<Rightarrow> int \<Rightarrow> Node" where
  "new_node k fn t l =
     \<lparr>node_id = k, activation = fn, node_type = t, layer = l, sum_inputs = None, outputs = None\<rparr>"

text \<open>
  \<^verbatim>\<open>add_node\<close>: splits a connection that is not recurrent. \<open>perm\<close> picks the connection,
  \<open>k\<close> the activation of the new node.
\<close>

definition add_node :: "CPPN \<Rightarrow> Globals \<Rightarrow> nat list \<Rightarrow> nat \<Rightarrow> (CPPN \<times> Globals) option" where
  "add_node g gl perm k =
     (let eligible_cxs = filter (\<lambda>cx. \<not> is_recurrent cx) (connection_genome g) in
      if eligible_cxs = [] then Some (g, gl)
      else
        (case random_choice eligible_cxs 1 perm of
           [] \<Rightarrow> None
         | old_connection # _ \<Rightarrow>
             do {
               (new_id, indexer') \<leftarrow> get_new_node_id (node_genome g) (node_indexer gl);
               fn \<leftarrow> choose_random_function (config g) k;
               let nodes1 = node_genome g @ [new_node new_id fn HIDDEN 999];
               let cxs1 = set_enabled (cx_key old_connection) False (connection_genome g);
               cxs2 \<leftarrow> insert_new_connection
                         (new_connection (fst (cx_key old_connection), new_id) 1) cxs1;
               cxs3 \<leftarrow> insert_new_connection
                         (new_connection (new_id, snd (cx_key old_connection))
                            (weight old_connection)) cxs2;
               g' \<leftarrow> update_node_layers (g\<lparr>node_genome := nodes1, connection_genome := cxs3\<rparr>);
               Some (g'\<lparr>image := None\<rparr>, gl\<lparr>node_indexer := indexer'\<rparr>)
             }))"

text \<open>
  \<^verbatim>\<open>disable_invalid_connections\<close>. Its first statement is \<^verbatim>\<open>return # TODO?\<close>; the loop after
  it, which would disable every enabled connection that \<^verbatim>\<open>is_valid_connection\<close> rejects, never
  runs.
\<close>

definition disable_invalid_connections :: "CPPN \<Rightarrow> CPPN" where
  "disable_invalid_connections g = g"

text \<open>
  \<^verbatim>\<open>remove_node\<close>: \<open>perm\<close> picks the hidden node. Every connection with the node's id in its
  key goes, then the entry of the node.
\<close>

definition remove_node :: "CPPN \<Rightarrow> nat list \<Rightarrow> CPPN option" where
  "remove_node g perm =
     (let hidden = hidden_nodes g in
      if hidden = [] then Some g
      else
        (case random_choice (map node_id hidden) 1 perm of
           [] \<Rightarrow> None
         | node_id_to_remove # _ \<Rightarrow>
             do {
               let cxs = filter (\<lambda>cx. \<not> (fst (cx_key cx) = node_id_to_remove \<or>
                                           snd (cx_key cx) = node_id_to_remove))
                           (connection_genome g);
               let nodes = filter (\<lambda>n. node_id n \<noteq> node_id_to_remove) (node_genome g);
               g' \<leftarrow> update_node_layers (g\<lparr>connection_genome := cxs, node_genome := nodes\<rparr>);
               Some ((disable_invalid_connections g')\<lparr>image := None\<rparr>)
             }))"

text \<open>
  \<^verbatim>\<open>add_connection\<close>: up to 20 attempts. The draws of attempt \<open>i\<close> are \<open>draws i\<close>: the
  permutation that picks the two nodes, the draw compared with \<^verbatim>\<open>prob_reenable_connection\<close>, and
  the draw for the new weight. \<open>None\<close> is the ValueError of unpacking fewer than two nodes, or the
  KeyError of the validity check.
\<close>

fun add_connection_loop ::
  "nat \<Rightarrow> nat \<Rightarrow> (nat \<Rightarrow> nat list \<times> real \<times> real) \<Rightarrow> CPPN \<Rightarrow> CPPN option" where
  "add_connection_loop 0 i draws g = Some g"
| "add_connection_loop (Suc remaining) i draws g =
     (case draws i of
        (perm, u_reenable, u_weight) \<Rightarrow>
          (case random_choice (node_genome g) 2 perm of
             [from_node, to_node] \<Rightarrow>
               (case connection_get (connection_genome g) (node_id from_node, node_id to_node) of
                  Some existing_cx \<Rightarrow>
                    if \<not> enabled existing_cx \<and>
                       random_uniform u_reenable 0 1 < prob_reenable_connection (config g)
                    then Some (g\<lparr>connection_genome :=
                                   set_enabled (cx_key existing_cx) True (connection_genome g)\<rparr>)
                    else Some g
                | None \<Rightarrow>
                    (case is_valid_connection (node_genome g)
                            (node_id from_node, node_id to_node) (config g) of
                       None \<Rightarrow> None
                     | Some True \<Rightarrow>
                         do {
                           cxs \<leftarrow> insert_new_connection
                                    (new_connection (node_id from_node, node_id to_node)
                                       (random_weight (config g) u_weight))
                                    (connection_genome g);
                           update_node_layers (g\<lparr>connection_genome := cxs\<rparr>)
                         }
                     | Some False \<Rightarrow> add_connection_loop remaining (Suc i) draws g))
           | _ \<Rightarrow> None))"

definition add_connection :: "CPPN \<Rightarrow> (nat \<Rightarrow> nat list \<times> real \<times> real) \<Rightarrow> CPPN option" where
  "add_connection g draws =
     map_option (\<lambda>g'. g'\<lparr>image := None\<rparr>) (add_connection_loop 20 0 draws g)"

text \<open>\<^verbatim>\<open>disable_connection\<close>: \<open>perm\<close> picks one of the enabled connections.\<close>

definition disable_connection :: "CPPN \<Rightarrow> nat list \<Rightarrow> CPPN option" where
  "disable_connection g perm =
     (let eligible_cxs = enabled_connections g in
      if length eligible_cxs < 1 then Some g
      else
        (case random_choice eligible_cxs 1 perm of
           [] \<Rightarrow> None
         | cx # _ \<Rightarrow>
             Some (g\<lparr>connection_genome := set_enabled (cx_key cx) False (connection_genome g),
                     image := None\<rparr>)))"

text \<open>
  \<^verbatim>\<open>mutate_activations(prob)\<close>: for the \<open>i\<close>-th eligible node, \<open>draws i\<close> is the draw compared with
  \<open>prob\<close> and the index for \<^verbatim>\<open>choose_random_function\<close>.
\<close>

fun mutate_activations_loop ::
  "Config \<Rightarrow> real \<Rightarrow> (nat \<Rightarrow> real \<times> nat) \<Rightarrow> nat \<Rightarrow> Node list \<Rightarrow> Node list \<Rightarrow> Node list option" where
  "mutate_activations_loop cfg prob draws i [] nodes = Some nodes"
| "mutate_activations_loop cfg prob draws i (n # rest) nodes =
     (case draws i of
        (u, k) \<Rightarrow>
          if random_uniform u 0 1 < prob
          then (case choose_random_function cfg k of
                  None \<Rightarrow> None
                | Some fn \<Rightarrow>
                    mutate_activations_loop cfg prob draws (Suc i) rest
                      (map (\<lambda>m. if node_id m = node_id n then m\<lparr>activation := fn\<rparr> else m) nodes))
          else mutate_activations_loop cfg prob draws (Suc i) rest nodes)"

definition mutate_activations :: "CPPN \<Rightarrow> real \<Rightarrow> (nat \<Rightarrow> real \<times> nat) \<Rightarrow> CPPN option" where
  "mutate_activations g prob draws =
     (let eligible_nodes =
            hidden_nodes g
            @ (if output_activation (config g) = None then output_nodes g else [])
            @ (if allow_input_activation_mutation (config g) then input_nodes g else [])
      in map_option (\<lambda>nodes. g\<lparr>node_genome := nodes, image := None\<rparr>)
           (mutate_activations_loop (config g) prob draws 0 eligible_nodes (node_genome g)))"

text \<open>
  \<^verbatim>\<open>clamp_weights\<close>: a weight strictly inside the threshold becomes 0, then
  \<^verbatim>\<open>torch.clamp(weight, -max_weight, max_weight)\<close>.
\<close>

definition clamp_weight :: "Config \<Rightarrow> real \<Rightarrow> real" where
  "clamp_weight cfg w =
     (let w1 = (if w < weight_threshold cfg \<and> w > - weight_threshold cfg then 0 else w)
      in min (max w1 (- max_weight cfg)) (max_weight cfg))"

definition clamp_weights :: "CPPN \<Rightarrow> CPPN" where
  "clamp_weights g =
     g\<lparr>connection_genome :=
          map (\<lambda>cx. cx\<lparr>weight := clamp_weight (config g) (weight cx)\<rparr>) (connection_genome g)\<rparr>"

text \<open>
  \<^verbatim>\<open>mutate_weights(prob)\<close>: for the \<open>i\<close>-th connection, \<open>draws i = (u1, u_delta, u2, u_w)\<close> are the
  draw compared with \<open>prob\<close>, the draw of the delta, the draw compared with
  \<^verbatim>\<open>prob_weight_reinit\<close> and the draw of the new weight.
\<close>

definition mutate_weight ::
  "Config \<Rightarrow> real \<Rightarrow> real \<times> real \<times> real \<times> real \<Rightarrow> Connection \<Rightarrow> Connection" where
  "mutate_weight cfg prob d cx =
     (case d of
        (u1, u_delta, u2, u_w) \<Rightarrow>
          if random_uniform u1 0 1 < prob
          then cx\<lparr>weight := weight cx
                     + random_uniform u_delta (- weight_mutation_max cfg) (weight_mutation_max cfg)\<rparr>
          else if random_uniform u2 0 1 < prob_weight_reinit cfg
          then cx\<lparr>weight := random_weight cfg u_w\<rparr>
          else cx)"

definition mutate_weights ::
  "CPPN \<Rightarrow> real \<Rightarrow> (nat \<Rightarrow> real \<times> real \<times> real \<times> real) \<Rightarrow> CPPN" where
  "mutate_weights g prob draws =
     (clamp_weights
        (g\<lparr>connection_genome :=
             map (\<lambda>(i, cx). mutate_weight (config g) prob (draws i) cx)
               (enumerate 0 (connection_genome g))\<rparr>))\<lparr>image := None\<rparr>"

text \<open>The draws of one call of \<^verbatim>\<open>mutate\<close>, in the order in which the source makes them.\<close>

record MutateDraws =
  u_add_node :: real
  add_node_perm :: "nat list"
  add_node_fn :: nat
  u_remove_node :: real
  remove_node_perm :: "nat list"
  u_add_connection :: real
  add_connection_draws :: "nat \<Rightarrow> nat list \<times> real \<times> real"
  u_disable_connection :: real
  disable_connection_perm :: "nat list"
  activation_draws :: "nat \<Rightarrow> real \<times> nat"
  weight_draws :: "nat \<Rightarrow> real \<times> real \<times> real \<times> real"

text \<open>
  The \<^verbatim>\<open>rates\<close> argument of \<^verbatim>\<open>mutate\<close>, unpacked as
  \<^verbatim>\<open>mutate_activations, mutate_weights, add_connection, add_node, remove_node, disable_connection,
  weight_mutation_max, prob_reenable_connection = rates\<close>.
\<close>

type_synonym rates = "real \<times> real \<times> real \<times> real \<times> real \<times> real \<times> real \<times> real"

text \<open>
  \<^verbatim>\<open>CPPN.mutate(rates=None)\<close>. The first statement sets \<^verbatim>\<open>fitness\<close>,
  \<^verbatim>\<open>adjusted_fitness\<close> and \<^verbatim>\<open>novelty\<close> to 0; each operator then runs when its draw is below
  its rate.
\<close>

definition reset_scores :: "CPPN \<Rightarrow> CPPN" where
  "reset_scores g = g\<lparr>fitness := 0, adjusted_fitness := 0, novelty := 0\<rparr>"

definition mutate ::
  "CPPN \<Rightarrow> Globals \<Rightarrow> rates option \<Rightarrow> MutateDraws \<Rightarrow> (CPPN \<times> Globals) option" where
  "mutate g gl rts d =
     (let g0 = reset_scores g in
      case (case rts of
              None \<Rightarrow>
                (prob_mutate_activation (config g0), prob_mutate_weight (config g0),
                 prob_add_connection (config g0), prob_add_node (config g0),
                 prob_remove_node (config g0), prob_disable_connection (config g0))
            | Some (r_act, r_weight, r_add_cx, r_add_node, r_remove_node, r_disable, _, _) \<Rightarrow>
                (r_act, r_weight, r_add_cx, r_add_node, r_remove_node, r_disable)) of
        (r_act, r_weight, r_add_cx, r_add_node, r_remove_node, r_disable) \<Rightarrow>
          do {
            (g1, gl1) \<leftarrow> (if random_uniform (u_add_node d) 0 1 < r_add_node
                           then add_node g0 gl (add_node_perm d) (add_node_fn d)
                           else Some (g0, gl));
            g2 \<leftarrow> (if random_uniform (u_remove_node d) 0 1 < r_remove_node
                    then remove_node g1 (remove_node_perm d) else Some g1);
            g3 \<leftarrow> (if random_uniform (u_add_connection d) 0 1 < r_add_cx
                    then add_connection g2 (add_connection_draws d) else Some g2);
            g4 \<leftarrow> (if random_uniform (u_disable_connection d) 0 1 < r_disable
                    then disable_connection g3 (disable_connection_perm d) else Some g3);
            g5 \<leftarrow> mutate_activations g4 r_act (activation_draws d);
            g6 \<leftarrow> update_node_layers (mutate_weights g5 r_weight (weight_draws d));
            Some (g6\<lparr>image := None\<rparr>, gl1)
          })"

text \<open>
  \<^verbatim>\<open>EvolutionaryAlgorithm.mutate(child)\<close> (evolutionary\_algorithm.py); \<open>rts\<close> is the value of
  \<^verbatim>\<open>self.get_mutation_rates()\<close>.
\<close>

definition ea_mutate ::
  "CPPN \<Rightarrow> Globals \<Rightarrow> rates \<Rightarrow> MutateDraws \<Rightarrow> (CPPN \<times> Globals) option" where
  "ea_mutate child gl rts d =
     mutate (child\<lparr>fitness := 0, adjusted_fitness := 0\<rparr>) gl (Some rts) d"

section \<open>Recombination and distance (cppn.py)\<close>

text \<open>
  \<^verbatim>\<open>Gene.copy\<close> and \<^verbatim>\<open>Gene.crossover\<close> build a new gene with \<^verbatim>\<open>self.__class__(self.key)\<close>
  and then set the gene attributes: activation and type for a node (the layer is the default 999 of
  the constructor), weight and enabled for a connection. \<open>u1\<close> and \<open>u2\<close> are the two draws of
  \<^verbatim>\<open>torch.rand(1)[0] < 0.5\<close>, one per attribute.
\<close>

definition node_copy :: "Node \<Rightarrow> Node" where
  "node_copy n = new_node (node_id n) (activation n) (node_type n) 999"

definition node_crossover :: "Node \<Rightarrow> Node \<Rightarrow> real \<Rightarrow> real \<Rightarrow> Node" where
  "node_crossover n other u1 u2 =
     new_node (node_id n)
       (if u1 < 0.5 then activation n else activation other)
       (if u2 < 0.5 then node_type n else node_type other)
       999"

definition connection_copy :: "Connection \<Rightarrow> Connection" where
  "connection_copy cx = (new_connection (cx_key cx) (weight cx))\<lparr>enabled := enabled cx\<rparr>"

definition connection_crossover :: "Connection \<Rightarrow> Connection \<Rightarrow> real \<Rightarrow> real \<Rightarrow> Connection" where
  "connection_crossover cx other u1 u2 =
     (new_connection (cx_key cx) (if u1 < 0.5 then weight cx else weight other))
       \<lparr>enabled := (if u2 < 0.5 then enabled cx else enabled other)\<rparr>"

text \<open>
  The two loops of \<^verbatim>\<open>CPPN.crossover\<close> over the genes of \<open>parent1\<close>. \<open>rnd\<close> is the sequence of
  draws and \<open>c\<close> the number of draws made so far; the result carries the new count.
\<close>

fun inherit_connections ::
  "(nat \<Rightarrow> real) \<Rightarrow> nat \<Rightarrow> Connection list \<Rightarrow> Connection list \<Rightarrow> Connection list \<times> nat" where
  "inherit_connections rnd c [] cxs2 = ([], c)"
| "inherit_connections rnd c (cx1 # rest) cxs2 =
     (case connection_get cxs2 (cx_key cx1) of
        None \<Rightarrow>
          (case inherit_connections rnd c rest cxs2 of
             (r, c') \<Rightarrow> (connection_copy cx1 # r, c'))
      | Some cx2 \<Rightarrow>
          (case inherit_connections rnd (c + 2) rest cxs2 of
             (r, c') \<Rightarrow> (connection_crossover cx1 cx2 (rnd c) (rnd (c + 1)) # r, c')))"

fun inherit_nodes ::
  "(nat \<Rightarrow> real) \<Rightarrow> nat \<Rightarrow> Node list \<Rightarrow> Node list \<Rightarrow> Node list \<times> nat" where
  "inherit_nodes rnd c [] nodes2 = ([], c)"
| "inherit_nodes rnd c (node1 # rest) nodes2 =
     (case find_node_with_id nodes2 (node_id node1) of
        None \<Rightarrow>
          (case inherit_nodes rnd c rest nodes2 of
             (r, c') \<Rightarrow> (node_copy node1 # r, c'))
      | Some node2 \<Rightarrow>
          (case inherit_nodes rnd (c + 2) rest nodes2 of
             (r, c') \<Rightarrow> (node_crossover node1 node2 (rnd c) (rnd (c + 1)) # r, c')))"

text \<open>
  \<^verbatim>\<open>CPPN(config, {}, {})\<close>: the constructor with both genomes given. It takes the next
  \<^verbatim>\<open>CPPN.current_id\<close>.
\<close>

definition count_inputs :: "Config \<Rightarrow> nat" where
  "count_inputs cfg =
     2 + (if use_radial_distance cfg then 1 else 0) + (if use_input_bias cfg then 1 else 0)"

definition cppn_with :: "Config \<Rightarrow> Globals \<Rightarrow> Node list \<Rightarrow> Connection list \<Rightarrow> CPPN \<times> Globals" where
  "cppn_with cfg gl nodes cxs =
     (\<lparr>config = cfg, image = None, node_genome = nodes, connection_genome = cxs,
       selected = False, species_id = 0, cppn_id = current_id gl, parents = (0, 0),
       fitness = 0, novelty = 0, adjusted_fitness = 0,
       n_inputs = count_inputs cfg, n_outputs = length (color_mode cfg)\<rparr>,
      gl\<lparr>current_id := current_id gl + 1\<rparr>)"

text \<open>
  \<^verbatim>\<open>CPPN.crossover(self, other)\<close>. \<open>parent1\<close> is the parent with the greater fitness; on equal
  fitness the first draw decides. \<open>None\<close> is the KeyError of \<^verbatim>\<open>update_node_layers\<close>.
\<close>

definition choose_parents :: "CPPN \<Rightarrow> CPPN \<Rightarrow> (nat \<Rightarrow> real) \<Rightarrow> CPPN \<times> CPPN \<times> nat" where
  "choose_parents self other rnd =
     (if fitness self > fitness other then (self, other, 0)
      else if fitness self < fitness other then (other, self, 0)
      else if rnd 0 < 0.5 then (self, other, 1)
      else (other, self, 1))"

definition crossover :: "CPPN \<Rightarrow> CPPN \<Rightarrow> Globals \<Rightarrow> (nat \<Rightarrow> real) \<Rightarrow> (CPPN \<times> Globals) option" where
  "crossover self other gl rnd =
     (case cppn_with (config self) gl [] [] of
        (child, gl') \<Rightarrow>
          (case choose_parents self other rnd of
             (parent1, parent2, c0) \<Rightarrow>
               (case inherit_connections rnd c0 (connection_genome parent1)
                       (connection_genome parent2) of
                  (cxs, c1) \<Rightarrow>
                    (case inherit_nodes rnd c1 (node_genome parent1) (node_genome parent2) of
                       (nodes, c2) \<Rightarrow>
                         map_option (\<lambda>child'. (child', gl'))
                           (update_node_layers
                              (child\<lparr>connection_genome := cxs, node_genome := nodes,
                                     parents := (cppn_id parent1, cppn_id parent2)\<rparr>))))))"

text \<open>
  \<^verbatim>\<open>get_disjoint_connections\<close>, \<^verbatim>\<open>get_excess_connections\<close> and
  \<^verbatim>\<open>get_matching_connections\<close> (graph\_util.py). Keys are tuples, which Python compares
  lexicographically.
\<close>

definition get_disjoint_connections :: "Connection list \<Rightarrow> (int \<times> int) list \<Rightarrow> Connection list" where
  "get_disjoint_connections this_cxs other_innovation =
     (if length this_cxs = 0 \<or> length other_innovation = 0 then []
      else filter (\<lambda>t_cx. cx_key t_cx \<notin> set other_innovation \<and>
                          cx_key t_cx < last other_innovation) this_cxs)"

definition get_excess_connections :: "Connection list \<Rightarrow> (int \<times> int) list \<Rightarrow> Connection list" where
  "get_excess_connections this_cxs other_innovation =
     (if length this_cxs = 0 \<or> length other_innovation = 0 then []
      else filter (\<lambda>t_cx. cx_key t_cx \<notin> set other_innovation \<and>
                          cx_key t_cx > last other_innovation) this_cxs)"

definition get_matching_connections ::
  "Connection list \<Rightarrow> Connection list \<Rightarrow> Connection list \<times> Connection list" where
  "get_matching_connections cxs_1 cxs_2 =
     (sort_key cx_key (filter (\<lambda>c1. cx_key c1 \<in> set (map cx_key cxs_2)) cxs_1),
      sort_key cx_key (filter (\<lambda>c2. cx_key c2 \<in> set (map cx_key cxs_1)) cxs_2))"

text \<open>
  \<^verbatim>\<open>CPPN.genetic_difference(self, other)\<close>, over the reals. The nodes are compared pairwise in
  the order of the two node genomes.
\<close>

definition mean_weight_difference :: "Connection list \<Rightarrow> Connection list \<Rightarrow> real" where
  "mean_weight_difference this_matching other_matching =
     (let difference_of_matching_weights =
            map (\<lambda>(o_cx, t_cx). \<bar>weight o_cx - weight t_cx\<bar>) (zip other_matching this_matching)
      in if length difference_of_matching_weights = 0 then 0
         else sum_list difference_of_matching_weights
                / real (length difference_of_matching_weights))"

definition count_different_fns :: "Node list \<Rightarrow> Node list \<Rightarrow> nat" where
  "count_different_fns this_nodes other_nodes =
     length (filter (\<lambda>(t_node, o_node). activation t_node \<noteq> activation o_node)
               (zip this_nodes other_nodes))"

definition genetic_difference :: "CPPN \<Rightarrow> CPPN \<Rightarrow> real" where
  "genetic_difference self other =
     (let this_cxs = sort_key cx_key (enabled_connections self);
          other_cxs = sort_key cx_key (enabled_connections other);
          N = max (length this_cxs) (length other_cxs);
          other_innovation = map cx_key other_cxs;
          n_excess = real (length (get_excess_connections this_cxs other_innovation));
          n_disjoint = real (length (get_disjoint_connections this_cxs other_innovation));
          difference_of_matching_weights =
            (case get_matching_connections this_cxs other_cxs of
               (this_matching, other_matching) \<Rightarrow>
                 mean_weight_difference this_matching other_matching);
          n_different_fns = real (count_different_fns (node_genome self) (node_genome other));
          n_excess' = (if N > 0 then n_excess / real N else n_excess);
          n_disjoint' = (if N > 0 then n_disjoint / real N else n_disjoint)
      in n_excess' * 1 + n_disjoint' * 1 + difference_of_matching_weights * 0.4
           + n_different_fns * 1)"

definition species_comparision :: "CPPN \<Rightarrow> CPPN \<Rightarrow> real \<Rightarrow> bool" where
  "species_comparision self other threshold = (genetic_difference self other < threshold)"

section \<open>Evaluation (cppn.py)\<close>

text \<open>
  The activation functions are a parameter \<open>af\<close> of the evaluation: \<open>af name\<close> is the scalar
  function of that name, which torch applies to every entry of a tensor. A connection weight is a
  scalar.
\<close>

type_synonym activation_fns = "string \<Rightarrow> real \<Rightarrow> real"

definition tensor_add :: "tensor \<Rightarrow> tensor \<Rightarrow> tensor" where
  "tensor_add a b = map2 (+) a b"

definition tensor_scale :: "tensor \<Rightarrow> real \<Rightarrow> tensor" where
  "tensor_scale a w = map (\<lambda>v. v * w) a"

text \<open>
  The loop of \<^verbatim>\<open>Node.activate\<close>:
  \<^verbatim>\<open>self.sum_inputs = self.sum_inputs + nodes[cx.key[0]].outputs * cx.weight\<close>.
  \<open>None\<close> is the KeyError of a source that is no key, or the TypeError of a source whose outputs
  are \<^verbatim>\<open>None\<close>.
\<close>

fun accumulate :: "Node list \<Rightarrow> tensor \<Rightarrow> Connection list \<Rightarrow> tensor option" where
  "accumulate nodes acc [] = Some acc"
| "accumulate nodes acc (cx # rest) =
     (case find_node_with_id nodes (fst (cx_key cx)) of
        None \<Rightarrow> None
      | Some src \<Rightarrow>
          (case outputs src of
             None \<Rightarrow> None
           | Some out \<Rightarrow> accumulate nodes (tensor_add acc (tensor_scale out (weight cx))) rest))"

text \<open>
  \<^verbatim>\<open>Node.activate(incoming_connections, nodes)\<close>. A node whose \<^verbatim>\<open>sum_inputs\<close> is
  \<^verbatim>\<open>None\<close> fails: with incoming connections at the addition, without them at
  \<^verbatim>\<open>incoming_connections[0]\<close>.
\<close>

definition activate :: "activation_fns \<Rightarrow> Node \<Rightarrow> Connection list \<Rightarrow> Node list \<Rightarrow> Node option" where
  "activate af n incoming_connections nodes =
     (case sum_inputs n of
        None \<Rightarrow> None
      | Some acc \<Rightarrow>
          (case accumulate nodes acc incoming_connections of
             None \<Rightarrow> None
           | Some summed \<Rightarrow>
               Some (n\<lparr>sum_inputs := Some summed, outputs := Some (map (af (activation n)) summed)\<rparr>)))"

text \<open>Writing a node back under its id: the source mutates the node object in place.\<close>

definition put_node :: "Node \<Rightarrow> Node list \<Rightarrow> Node list" where
  "put_node n nodes = map (\<lambda>m. if node_id m = node_id n then n else m) nodes"

text \<open>
  The body of the inner loop of \<^verbatim>\<open>feed_forward\<close> and of \<^verbatim>\<open>get_image_data_parallel\<close>:
  look the node up, initialise its sum with \<open>init\<close>, activate it.
\<close>

definition activate_node ::
  "activation_fns \<Rightarrow> (Node \<Rightarrow> Node option) \<Rightarrow> int \<Rightarrow> CPPN \<Rightarrow> CPPN option" where
  "activate_node af init k g =
     do {
       n \<leftarrow> find_node_with_id (node_genome g) k;
       n0 \<leftarrow> init n;
       n1 \<leftarrow> activate af n0 (get_incoming_connections g n) (node_genome g);
       Some (g\<lparr>node_genome := put_node n1 (node_genome g)\<rparr>)
     }"

text \<open>\<^verbatim>\<open>for layer in layers: for node_index, node_id in enumerate(layer): ...\<close>\<close>

fun run_layer :: "(nat \<Rightarrow> int \<Rightarrow> CPPN \<Rightarrow> CPPN option) \<Rightarrow> nat \<Rightarrow> int list \<Rightarrow> CPPN \<Rightarrow> CPPN option" where
  "run_layer step node_index [] g = Some g"
| "run_layer step node_index (k # rest) g =
     (case step node_index k g of
        None \<Rightarrow> None
      | Some g' \<Rightarrow> run_layer step (Suc node_index) rest g')"

fun run_layers :: "(nat \<Rightarrow> int \<Rightarrow> CPPN \<Rightarrow> CPPN option) \<Rightarrow> int list list \<Rightarrow> CPPN \<Rightarrow> CPPN option" where
  "run_layers step [] g = Some g"
| "run_layers step (lay # rest) g =
     (case run_layer step 0 lay g of
        None \<Rightarrow> None
      | Some g' \<Rightarrow> run_layers step rest g')"

text \<open>
  \<^verbatim>\<open>torch.stack([node.outputs for node in self.output_nodes().values()])\<close>: it fails on an
  output that is \<^verbatim>\<open>None\<close> and on an empty list.
\<close>

definition stack_outputs :: "CPPN \<Rightarrow> tensor list option" where
  "stack_outputs g =
     (if output_nodes g = [] then None else those (map outputs (output_nodes g)))"

text \<open>
  \<^verbatim>\<open>set_inputs(inputs)\<close>: the radial distance and the bias are appended as configured, then the
  inputs are paired with the input nodes in order.
\<close>

definition extend_inputs :: "Config \<Rightarrow> tensor list \<Rightarrow> tensor list option" where
  "extend_inputs cfg inputs =
     (if use_radial_distance cfg \<and> length inputs < 2 then None
      else Some (inputs
                 @ (if use_radial_distance cfg
                    then [map2 (\<lambda>a b. sqrt (a\<^sup>2 + b\<^sup>2)) (inputs ! 0) (inputs ! 1)] else [])
                 @ (if use_input_bias cfg then [[1]] else [])))"

definition set_input :: "activation_fns \<Rightarrow> tensor \<times> Node \<Rightarrow> Node list \<Rightarrow> Node list" where
  "set_input af p nodes =
     (case p of
        (inp, n) \<Rightarrow>
          put_node (n\<lparr>sum_inputs := Some inp, outputs := Some (map (af (activation n)) inp)\<rparr>) nodes)"

definition set_inputs :: "activation_fns \<Rightarrow> CPPN \<Rightarrow> tensor list \<Rightarrow> CPPN option" where
  "set_inputs af g inputs =
     map_option
       (\<lambda>ins. g\<lparr>node_genome := fold (set_input af) (zip ins (input_nodes g)) (node_genome g)\<rparr>)
       (extend_inputs (config g) inputs)"

text \<open>
  \<^verbatim>\<open>feed_forward\<close>: the input ids are the first layer; an input node keeps the sum that
  \<^verbatim>\<open>set_inputs\<close> gave it, every other node starts from \<^verbatim>\<open>torch.zeros(1)\<close>. The result is the
  stacked outputs with the genome as the evaluation left it.
\<close>

definition serial_init :: "Node \<Rightarrow> Node option" where
  "serial_init n = Some (if node_type n = INPUT then n else n\<lparr>sum_inputs := Some [0]\<rparr>)"

definition feed_forward :: "activation_fns \<Rightarrow> CPPN \<Rightarrow> (tensor list \<times> CPPN) option" where
  "feed_forward af g =
     do {
       g' \<leftarrow> run_layers (\<lambda>node_index. activate_node af serial_init)
               (map node_id (input_nodes g) # feed_forward_layers g) g;
       outs \<leftarrow> stack_outputs g';
       if length outs = num_outputs (config g') then Some (outs, g') else None
     }"

definition eval_inputs :: "activation_fns \<Rightarrow> CPPN \<Rightarrow> tensor list \<Rightarrow> (tensor list \<times> CPPN) option" where
  "eval_inputs af g inputs = do { g' \<leftarrow> set_inputs af g inputs; feed_forward af g' }"

text \<open>\<^verbatim>\<open>torch.linspace(a, b, steps)\<close>\<close>

definition linspace :: "real \<Rightarrow> real \<Rightarrow> nat \<Rightarrow> real list" where
  "linspace a b steps =
     (if steps = 1 then [a]
      else map (\<lambda>i. a + real i * ((b - a) / real (steps - 1))) [0..<steps])"

text \<open>
  \<^verbatim>\<open>torch.reshape\<close> of a tensor: the entries stay in order; the shape has to account for all
  of them.
\<close>

definition reshape :: "tensor \<Rightarrow> nat list \<Rightarrow> (nat list \<times> tensor) option" where
  "reshape entries shp = (if prod_list shp = length entries then Some (shp, entries) else None)"

text \<open>
  The argument of \<^verbatim>\<open>torch.reshape(input, shape)\<close> has to be a tensor: called with a Python list
  it raises a TypeError, whatever the list holds.
\<close>

datatype reshape_input = TensorArg tensor | ListArg "tensor list"

definition torch_reshape :: "reshape_input \<Rightarrow> nat list \<Rightarrow> (nat list \<times> tensor) option" where
  "torch_reshape input shp =
     (case input of TensorArg entries \<Rightarrow> reshape entries shp | ListArg items \<Rightarrow> None)"

text \<open>
  \<^verbatim>\<open>get_image_data_serial\<close>: \<^verbatim>\<open>x\<close> runs over \<^verbatim>\<open>linspace(-.5, .5, res_w)\<close> in the outer
  loop, \<^verbatim>\<open>y\<close> over \<^verbatim>\<open>linspace(-.5, .5, res_h)\<close> in the inner loop, each pixel is
  \<^verbatim>\<open>self.eval([x, y])\<close>, and \<^verbatim>\<open>pixels.extend(outputs)\<close> appends the output tensors of the
  pixel to the Python list \<^verbatim>\<open>pixels\<close>. After the loops \<^verbatim>\<open>torch.reshape(pixels, ...)\<close> is
  called with that list.
\<close>

fun serial_pixels ::
  "activation_fns \<Rightarrow> (real \<times> real) list \<Rightarrow> CPPN \<Rightarrow> (tensor list \<times> CPPN) option" where
  "serial_pixels af [] g = Some ([], g)"
| "serial_pixels af ((x, y) # rest) g =
     (case eval_inputs af g [[x], [y]] of
        None \<Rightarrow> None
      | Some (outs, g') \<Rightarrow>
          (case serial_pixels af rest g' of
             None \<Rightarrow> None
           | Some (pixels, g'') \<Rightarrow> Some (outs @ pixels, g'')))"

definition get_image_data_serial :: "activation_fns \<Rightarrow> CPPN \<Rightarrow> CPPN option" where
  "get_image_data_serial af g =
     do {
       (pixels, g') \<leftarrow>
          serial_pixels af
            (List.product (linspace (- 0.5) 0.5 (res_w (config g)))
                          (linspace (- 0.5) 0.5 (res_h (config g)))) g;
       img \<leftarrow> torch_reshape (ListArg pixels)
                (if length (color_mode (config g)) > 2
                 then [res_w (config g), res_h (config g), n_outputs g]
                 else [res_w (config g), res_h (config g)]);
       Some (g'\<lparr>image := Some img\<rparr>)
     }"

text \<open>
  \<^verbatim>\<open>CPPN.initialize_inputs\<close>: \<^verbatim>\<open>pixel_inputs[y][x] = [y_vals[y], x_vals[x], d?, 1.0?]\<close>. The
  result lists, for every input feature \<open>k\<close>, the grid \<^verbatim>\<open>pixel_inputs[:, :, k]\<close>; \<open>None\<close> is the
  shape error of storing a pixel whose length is not \<^verbatim>\<open>n_inputs\<close>. The source keeps the tensor in
  a class attribute and rebuilds it when the resolution changes; the model rebuilds it every time.
\<close>

definition this_pixel :: "bool \<Rightarrow> bool \<Rightarrow> real \<Rightarrow> real \<Rightarrow> real list" where
  "this_pixel use_radial_dist use_bias yv xv =
     [yv, xv] @ (if use_radial_dist then [sqrt (yv\<^sup>2 + xv\<^sup>2)] else [])
       @ (if use_bias then [1] else [])"

definition initialize_inputs :: "nat \<Rightarrow> nat \<Rightarrow> bool \<Rightarrow> bool \<Rightarrow> nat \<Rightarrow> tensor list option" where
  "initialize_inputs h w use_radial_dist use_bias n_in =
     (let x_vals = linspace (- 0.5) 0.5 w;
          y_vals = linspace (- 0.5) 0.5 h
      in if h * w > 0 \<and> length (this_pixel use_radial_dist use_bias 0 0) \<noteq> n_in then None
         else Some (map (\<lambda>k. map (\<lambda>(yv, xv). this_pixel use_radial_dist use_bias yv xv ! k)
                                (List.product y_vals x_vals))
                      [0..<n_in]))"

text \<open>\<^verbatim>\<open>reset_activations(parallel=True)\<close>: every node holds a grid of 0.5.\<close>

definition reset_activations :: "CPPN \<Rightarrow> CPPN" where
  "reset_activations g =
     g\<lparr>node_genome :=
          map (\<lambda>n. n\<lparr>sum_inputs := Some (replicate (res_h (config g) * res_w (config g)) (1 / 2)),
                      outputs := Some (replicate (res_h (config g) * res_w (config g)) (1 / 2))\<rparr>)
            (node_genome g)\<rparr>"

text \<open>
  The start of a node's sum on the parallel path: \<^verbatim>\<open>pixel_inputs[:, :, node_index]\<close> for an input
  node (an IndexError when there is no such feature), a grid of zeros for any other node.
\<close>

definition parallel_init :: "tensor list \<Rightarrow> nat \<Rightarrow> nat \<Rightarrow> Node \<Rightarrow> Node option" where
  "parallel_init pixel_inputs n_pixels node_index n =
     (if node_type n = INPUT
      then (if node_index < length pixel_inputs
            then Some (n\<lparr>sum_inputs := Some (pixel_inputs ! node_index)\<rparr>) else None)
      else Some (n\<lparr>sum_inputs := Some (replicate n_pixels 0)\<rparr>))"

text \<open>
  \<^verbatim>\<open>normalize_image\<close>: shift by the minimum and divide by the range unless it is 0;
  \<^verbatim>\<open>torch.max\<close> fails on an image without entries. The conversion \<^verbatim>\<open>hsv2rgb\<close> of skimage is a
  parameter.
\<close>

definition normalize_image ::
  "(nat list \<times> tensor \<Rightarrow> nat list \<times> tensor) \<Rightarrow> string \<Rightarrow> nat list \<times> tensor
   \<Rightarrow> (nat list \<times> tensor) option" where
  "normalize_image hsv2rgb mode img =
     (case img of
        (shp, entries) \<Rightarrow>
          if entries = [] then None
          else
            let max_value = Max (set entries);
                min_value = Min (set entries);
                image_range = max_value - min_value;
                shifted = map (\<lambda>v. v - min_value) entries;
                scaled = (if image_range \<noteq> 0 then map (\<lambda>v. v / image_range) shifted else shifted)
            in Some (if mode = ''HSL'' then hsv2rgb (shp, scaled) else (shp, scaled)))"

text \<open>
  \<^verbatim>\<open>get_image_data_parallel\<close>. \<^verbatim>\<open>outputs.permute(1, 2, 0)\<close> moves the output index last: the
  entry of pixel \<open>p\<close> and output \<open>k\<close> is entry \<open>p\<close> of the \<open>k\<close>-th stacked output.
\<close>

definition permute_outputs :: "nat \<Rightarrow> tensor list \<Rightarrow> tensor" where
  "permute_outputs n_pixels outs = concat (map (\<lambda>p. map (\<lambda>out. out ! p) outs) [0..<n_pixels])"

definition get_image_data_parallel ::
  "activation_fns \<Rightarrow> (nat list \<times> tensor \<Rightarrow> nat list \<times> tensor) \<Rightarrow> CPPN \<Rightarrow> CPPN option" where
  "get_image_data_parallel af hsv2rgb g =
     (let h = res_h (config g); w = res_w (config g) in
      do {
        pixel_inputs \<leftarrow> initialize_inputs h w (use_radial_distance (config g))
                           (use_input_bias (config g)) (n_inputs g);
        g' \<leftarrow> run_layers (\<lambda>node_index. activate_node af (parallel_init pixel_inputs (h * w) node_index))
                (map node_id (input_nodes g) # feed_forward_layers g) (reset_activations g);
        outs \<leftarrow> stack_outputs g';
        img \<leftarrow> (if length (color_mode (config g)) > 2
                 then Some ([h, w, length outs], permute_outputs (h * w) outs)
                 else torch_reshape (TensorArg (concat outs)) [h, w]);
        img' \<leftarrow> (if normalize_outputs (config g)
                  then normalize_image hsv2rgb (color_mode (config g)) img else Some img);
        Some (g'\<lparr>image := Some img'\<rparr>)
      })"

section \<open>Construction (cppn.py, \<^verbatim>\<open>CPPN.__init__\<close>)\<close>

text \<open>
  \<^verbatim>\<open>initialize_node_genome\<close>: the input nodes get the ids \<open>-1, -2, \<dots>\<close>, the activation
  \<^verbatim>\<open>identity\<close> and layer 0; the output nodes follow with layer 2; the hidden nodes of the start
  get layer 1 and an id from \<^verbatim>\<open>get_new_node_id\<close>. \<open>act_draw j\<close> is the index of the \<open>j\<close>-th
  call of \<^verbatim>\<open>choose_random_function\<close>.
\<close>

definition initial_input_nodes :: "nat \<Rightarrow> Node list" where
  "initial_input_nodes n_in = map (\<lambda>idx. new_node (- (1 + int idx)) ''identity'' INPUT 0) [0..<n_in]"

definition initial_output_nodes :: "Config \<Rightarrow> nat \<Rightarrow> nat \<Rightarrow> (nat \<Rightarrow> nat) \<Rightarrow> Node list option" where
  "initial_output_nodes cfg n_in n_out act_draw =
     those (map (\<lambda>idx.
                   map_option (\<lambda>output_fn. new_node (- (1 + int idx)) output_fn OUTPUT 2)
                     (case output_activation cfg of
                        None \<Rightarrow> choose_random_function cfg (act_draw (idx - n_in))
                      | Some fn \<Rightarrow> Some fn))
              [n_in..<n_in + n_out])"

fun initial_hidden_nodes ::
  "Config \<Rightarrow> (nat \<Rightarrow> nat) \<Rightarrow> nat \<Rightarrow> nat \<Rightarrow> Node list \<Rightarrow> int option \<Rightarrow> (Node list \<times> int option) option" where
  "initial_hidden_nodes cfg act_draw j 0 nodes indexer = Some (nodes, indexer)"
| "initial_hidden_nodes cfg act_draw j (Suc remaining) nodes indexer =
     do {
       (new_id, indexer') \<leftarrow> get_new_node_id nodes indexer;
       fn \<leftarrow> choose_random_function cfg (act_draw j);
       initial_hidden_nodes cfg act_draw (Suc j) remaining
         (nodes @ [new_node new_id fn HIDDEN 1]) indexer'
     }"

definition initialize_node_genome ::
  "Config \<Rightarrow> nat \<Rightarrow> nat \<Rightarrow> (nat \<Rightarrow> nat) \<Rightarrow> int option \<Rightarrow> (Node list \<times> int option) option" where
  "initialize_node_genome cfg n_in n_out act_draw indexer =
     do {
       outs \<leftarrow> initial_output_nodes cfg n_in n_out act_draw;
       initial_hidden_nodes cfg act_draw n_out (hidden_nodes_at_start cfg)
         (initial_input_nodes n_in @ outs) indexer
     }"

text \<open>\<^verbatim>\<open>get_output_layer_index\<close>; \<open>None\<close> is \<^verbatim>\<open>assert False, "No output layer found"\<close>.\<close>

definition get_output_layer_index :: "Node list \<Rightarrow> int option" where
  "get_output_layer_index nodes = map_option layer (find (\<lambda>n. node_type n = OUTPUT) nodes)"

definition get_layer :: "Node list \<Rightarrow> int \<Rightarrow> Node list" where
  "get_layer nodes layer_index = filter (\<lambda>n. layer n = layer_index) nodes"

text \<open>
  \<^verbatim>\<open>initialize_connection_genome\<close>: one connection from every node to every node of a later
  layer. For the \<open>i\<close>-th connection, \<open>rnd (2 * i)\<close> is the draw of its weight and
  \<open>rnd (2 * i + 1)\<close> the draw compared with \<^verbatim>\<open>init_connection_probability\<close>. The nodes of the
  start have distinct ids, so no key is written twice.
\<close>

definition initial_connection_keys :: "Node list \<Rightarrow> int \<Rightarrow> (int \<times> int) list" where
  "initial_connection_keys nodes output_layer_idx =
     [(node_id from_node, node_id to_node).
        layer_index \<leftarrow> [0..output_layer_idx],
        layer_to_index \<leftarrow> [layer_index..output_layer_idx],
        layer_index \<noteq> layer_to_index,
        from_node \<leftarrow> get_layer nodes layer_index,
        to_node \<leftarrow> get_layer nodes layer_to_index]"

definition initialize_connection_genome ::
  "Config \<Rightarrow> Node list \<Rightarrow> (nat \<Rightarrow> real) \<Rightarrow> Connection list option" where
  "initialize_connection_genome cfg nodes rnd =
     map_option
       (\<lambda>output_layer_idx.
          map (\<lambda>(i, k).
                 (new_connection k (random_weight cfg (rnd (2 * i))))
                   \<lparr>enabled := \<not> (rnd (2 * i + 1) > init_connection_probability cfg)\<rparr>)
            (enumerate 0 (initial_connection_keys nodes output_layer_idx)))
       (get_output_layer_index nodes)"

text \<open>
  \<^verbatim>\<open>CPPN(config)\<close> with no genomes given. The constructor does not call
  \<^verbatim>\<open>update_node_layers\<close>: the nodes keep the layers 0, 1 and 2 they were created with.
\<close>

definition cppn_init ::
  "Config \<Rightarrow> Globals \<Rightarrow> (nat \<Rightarrow> nat) \<Rightarrow> (nat \<Rightarrow> real) \<Rightarrow> (CPPN \<times> Globals) option" where
  "cppn_init cfg gl act_draw rnd =
     (case cppn_with cfg gl [] [] of
        (g, gl') \<Rightarrow>
          do {
            (nodes, indexer') \<leftarrow>
               initialize_node_genome cfg (n_inputs g) (n_outputs g) act_draw (node_indexer gl');
            cxs \<leftarrow> initialize_connection_genome cfg nodes rnd;
            Some (g\<lparr>node_genome := nodes, connection_genome := cxs\<rparr>,
                  gl'\<lparr>node_indexer := indexer'\<rparr>)
          })"

section \<open>Example genomes\<close>

text \<open>
  A configuration with two inputs (no radial distance, no bias) and one output (colour mode
  \<^verbatim>\<open>L\<close>), no hidden node at the start, every initial connection enabled, recurrence disallowed,
  and an image of one row and two columns.
\<close>

definition example_config :: Config where
  "example_config =
     \<lparr>allow_recurrent = False, use_radial_distance = False, use_input_bias = False,
      color_mode = ''L'', num_outputs = 1, hidden_nodes_at_start = 0,
      output_activation = Some ''linear'', activations = [''identity'', ''linear''],
      allow_input_activation_mutation = False, init_connection_probability = 1,
      max_weight = 3, weight_threshold = 0, weight_mutation_max = 2,
      prob_weight_reinit = 0, prob_reenable_connection = 0, prob_add_node = 0,
      prob_add_connection = 0, prob_remove_node = 0, prob_disable_connection = 0,
      prob_mutate_weight = 0, prob_mutate_activation = 0,
      res_h = 1, res_w = 2, normalize_outputs = False\<rparr>"

definition globals0 :: Globals where
  "globals0 = \<lparr>node_indexer = None, current_id = 1\<rparr>"

text \<open>
  A genome over a given configuration, with the scores and bookkeeping of a freshly built one.
\<close>

definition genome_of :: "Config \<Rightarrow> Node list \<Rightarrow> Connection list \<Rightarrow> CPPN" where
  "genome_of cfg nodes cxs =
     \<lparr>config = cfg, image = None, node_genome = nodes, connection_genome = cxs,
      selected = False, species_id = 0, cppn_id = 1, parents = (0, 0),
      fitness = 0, novelty = 0, adjusted_fitness = 0,
      n_inputs = count_inputs cfg, n_outputs = length (color_mode cfg)\<rparr>"

text \<open>
  The genome that the constructor builds for a configuration with two inputs, one output and no
  hidden node: inputs \<open>-1\<close> and \<open>-2\<close>, output \<open>-3\<close> on layer \<open>l\<close>, and the two connections into the
  output with the weights \<open>w0\<close> and \<open>w1\<close>.
\<close>

definition two_input_genome :: "Config \<Rightarrow> string \<Rightarrow> int \<Rightarrow> real \<Rightarrow> real \<Rightarrow> CPPN" where
  "two_input_genome cfg output_fn l w0 w1 =
     genome_of cfg
       [new_node (- 1) ''identity'' INPUT 0, new_node (- 2) ''identity'' INPUT 0,
        new_node (- 3) output_fn OUTPUT l]
       [new_connection (- 1, - 3) w0, new_connection (- 2, - 3) w1]"

text \<open>
  A run of the operators from the genome the constructor builds (weights 0): split \<open>(-1, -3)\<close>
  with the new node 0, split \<open>(0, -3)\<close> with the new node 1, remove node 0, split \<open>(1, -3)\<close> with
  the new node 2, remove node 1.
\<close>

definition run_start :: "(CPPN \<times> Globals) option" where
  "run_start = cppn_init example_config globals0 (\<lambda>j. 0) (\<lambda>i. 1 / 2)"

definition run_split1 :: "(CPPN \<times> Globals) option" where
  "run_split1 = Option.bind run_start (\<lambda>(g, gl). add_node g gl [0, 1] 0)"

definition run_split2 :: "(CPPN \<times> Globals) option" where
  "run_split2 = Option.bind run_split1 (\<lambda>(g, gl). add_node g gl [3, 0, 1, 2] 0)"

definition run_remove1 :: "(CPPN \<times> Globals) option" where
  "run_remove1 =
     Option.bind run_split2 (\<lambda>(g, gl). map_option (\<lambda>g'. (g', gl)) (remove_node g [0, 1]))"

definition run_split3 :: "(CPPN \<times> Globals) option" where
  "run_split3 = Option.bind run_remove1 (\<lambda>(g, gl). add_node g gl [2, 0, 1] 0)"

text \<open>The genome after the third split, written out.\<close>

definition stale_genome :: CPPN where
  "stale_genome =
     genome_of example_config
       [new_node (- 1) ''identity'' INPUT 0, new_node (- 2) ''identity'' INPUT 0,
        new_node (- 3) ''linear'' OUTPUT 3, new_node 1 ''identity'' HIDDEN 2,
        new_node 2 ''identity'' HIDDEN 999]
       [(new_connection (- 1, - 3) 0)\<lparr>enabled := False\<rparr>, new_connection (- 2, - 3) 0,
        (new_connection (1, - 3) 0)\<lparr>enabled := False\<rparr>, new_connection (1, 2) 1,
        new_connection (2, - 3) 0]"

text \<open>The genome after \<^verbatim>\<open>remove_node\<close> has taken node 1 from \<open>stale_genome\<close>.\<close>

definition after_removal :: CPPN where
  "after_removal =
     genome_of example_config
       [new_node (- 1) ''identity'' INPUT 0, new_node (- 2) ''identity'' INPUT 0,
        new_node (- 3) ''linear'' OUTPUT 3, new_node 2 ''identity'' HIDDEN 999]
       [(new_connection (- 1, - 3) 0)\<lparr>enabled := False\<rparr>, new_connection (- 2, - 3) 0,
        new_connection (2, - 3) 0]"

text \<open>
  A genome with scores, and rates and draws for one call of \<^verbatim>\<open>mutate\<close> in which
  \<^verbatim>\<open>add_node\<close>, \<^verbatim>\<open>add_connection\<close> and \<^verbatim>\<open>disable_connection\<close> fire and
  \<^verbatim>\<open>remove_node\<close> does not.
\<close>

definition scored_genome :: CPPN where
  "scored_genome =
     (two_input_genome example_config ''linear'' 1 0 0)
       \<lparr>fitness := 5, adjusted_fitness := 4, novelty := 3\<rparr>"

definition example_rates :: rates where
  "example_rates = (1, 1, 1, 1, 1 / 4, 1, 2, 1)"

definition example_draws :: MutateDraws where
  "example_draws =
     \<lparr>u_add_node = 0, add_node_perm = [1, 0], add_node_fn = 0,
      u_remove_node = 1 / 2, remove_node_perm = [0],
      u_add_connection = 0, add_connection_draws = (\<lambda>i. ([3, 0, 1, 2], 0, 2 / 3)),
      u_disable_connection = 0, disable_connection_perm = [2, 0, 1],
      activation_draws = (\<lambda>i. (0, 1)),
      weight_draws = (\<lambda>i. (0, 3 / 4, 0, 0))\<rparr>"


text \<open>
  The genome the constructor builds over \<open>example_config\<close> with the weights 1 and 0, its layers
  brought up to date: the output node repeats what input node \<open>-1\<close> receives. The image of
  \<open>example_config\<close> has one row and two columns. \<open>one_row_state a b s\<close> is that genome while it
  is evaluated: input node \<open>-1\<close> holds \<open>a\<close> as sum and output, input node \<open>-2\<close> holds \<open>b\<close>, the
  output node holds \<open>s\<close>.
\<close>

definition one_row_genome :: CPPN where
  "one_row_genome = two_input_genome example_config ''linear'' 1 1 0"

definition one_row_state :: "tensor option \<Rightarrow> tensor option \<Rightarrow> tensor option \<Rightarrow> CPPN" where
  "one_row_state a b s =
     one_row_genome
       \<lparr>node_genome :=
          [(new_node (- 1) ''identity'' INPUT 0)\<lparr>sum_inputs := a, outputs := a\<rparr>,
           (new_node (- 2) ''identity'' INPUT 0)\<lparr>sum_inputs := b, outputs := b\<rparr>,
           (new_node (- 3) ''linear'' OUTPUT 1)\<lparr>sum_inputs := s, outputs := s\<rparr>]\<rparr>"
section \<open>Auxiliary definitions for the proofs\<close>

text \<open>
  The layer that \<open>assign_layers\<close> leaves on the node with id \<open>k\<close> whose layer was \<open>old\<close>: the value
  written by the last layer that holds \<open>k\<close>.
\<close>

fun final_layer :: "nat \<Rightarrow> int list list \<Rightarrow> int \<Rightarrow> int \<Rightarrow> int" where
  "final_layer i [] k old = old"
| "final_layer i (lay # rest) k old =
     final_layer (Suc i) rest k (if k \<in> set lay then int i + 1 else old)"

definition relayer :: "int list list \<Rightarrow> Node \<Rightarrow> Node" where
  "relayer ls n =
     n\<lparr>layer := final_layer 0 ls (node_id n) (if node_type n = INPUT then 0 else layer n)\<rparr>"

text \<open>
  What the loop of \<^verbatim>\<open>feed_forward_layers\<close> guarantees for the layers it appends when it starts
  from \<open>s\<close>: each is non-empty, disjoint from everything placed before it, made of required
  targets of connections, and every connection into it starts in what was placed before it.
\<close>

fun good_layers :: "(int \<times> int) list \<Rightarrow> int set \<Rightarrow> int set \<Rightarrow> int list list \<Rightarrow> bool" where
  "good_layers connections required s [] = True"
| "good_layers connections required s (t # rest) =
     (t \<noteq> [] \<and> set t \<inter> s = {} \<and> set t \<subseteq> required \<and> set t \<subseteq> snd ` set connections \<and>
      (\<forall>(a, b) \<in> set connections. b \<in> set t \<longrightarrow> a \<in> s) \<and>
      good_layers connections required (s \<union> set t) rest)"

text \<open>The node ids that \<^verbatim>\<open>feed_forward_layers\<close> places in a layer.\<close>

definition placed :: "CPPN \<Rightarrow> int set" where
  "placed g = \<Union>(set (map set (feed_forward_layers g)))"


text \<open>The required set that \<^verbatim>\<open>feed_forward_layers\<close> computes for a genome.\<close>

definition required_nodes :: "CPPN \<Rightarrow> int set" where
  "required_nodes g =
     required_for_output (map node_id (input_nodes g)) (map node_id (output_nodes g))
       (map cx_key (connection_genome g))"

text \<open>A connection touches the node \<open>r\<close>: \<^verbatim>\<open>node_id_to_remove in cx.key\<close>.\<close>

definition incident :: "int \<Rightarrow> Connection \<Rightarrow> bool" where
  "incident r cx = (fst (cx_key cx) = r \<or> snd (cx_key cx) = r)"

text \<open>
  For \<^verbatim>\<open>add_connection\<close>: the key that an attempt samples with the permutation \<open>perm\<close>; an
  attempt that is rejected (the key is new and the validity check returns False); the genome after
  an attempt that sampled the existing key \<open>k\<close>; a genome on which no pair of distinct nodes is a
  valid new connection; and the three possible outcomes of a call (nothing changed, one disabled
  connection enabled again, one new valid connection appended and the layers updated).
\<close>

definition sampled_key :: "CPPN \<Rightarrow> nat list \<Rightarrow> int \<times> int" where
  "sampled_key g perm =
     (node_id (node_genome g ! (perm ! 0)), node_id (node_genome g ! (perm ! 1)))"

definition attempt_rejected :: "CPPN \<Rightarrow> nat list \<Rightarrow> bool" where
  "attempt_rejected g perm =
     (connection_get (connection_genome g) (sampled_key g perm) = None \<and>
      is_valid_connection (node_genome g) (sampled_key g perm) (config g) = Some False)"

definition reenabled :: "CPPN \<Rightarrow> int \<times> int \<Rightarrow> real \<Rightarrow> CPPN" where
  "reenabled g k u =
     (case connection_get (connection_genome g) k of
        None \<Rightarrow> g
      | Some existing_cx \<Rightarrow>
          if \<not> enabled existing_cx \<and> random_uniform u 0 1 < prob_reenable_connection (config g)
          then g\<lparr>connection_genome := set_enabled k True (connection_genome g)\<rparr>
          else g)"

definition no_valid_new_edge :: "CPPN \<Rightarrow> bool" where
  "no_valid_new_edge g =
     list_all (\<lambda>a. list_all (\<lambda>b.
         node_id a = node_id b \<or>
         connection_get (connection_genome g) (node_id a, node_id b) \<noteq> None \<or>
         is_valid_connection (node_genome g) (node_id a, node_id b) (config g) = Some False)
       (node_genome g)) (node_genome g)"

definition add_connection_outcome :: "CPPN \<Rightarrow> CPPN \<Rightarrow> bool" where
  "add_connection_outcome g g' =
     (g' = g \<or>
      (\<exists>k cx. connection_get (connection_genome g) k = Some cx \<and> \<not> enabled cx \<and>
          g' = g\<lparr>connection_genome := set_enabled k True (connection_genome g)\<rparr>) \<or>
      (\<exists>k w. k \<notin> set (map cx_key (connection_genome g)) \<and>
          fst k \<in> set (map node_id (node_genome g)) \<and>
          snd k \<in> set (map node_id (node_genome g)) \<and>
          is_valid_connection (node_genome g) k (config g) = Some True \<and>
          update_node_layers (g\<lparr>connection_genome := connection_genome g @ [new_connection k w]\<rparr>)
            = Some g'))"

text \<open>
  For \<^verbatim>\<open>crossover\<close>: a gene of the child that stands for the gene \<open>c1\<close> (or \<open>n1\<close>) of
  \<open>parent1\<close>. It has the same key; where \<open>parent2\<close> has no gene under that key its attributes
  are those of \<open>parent1\<close>; where it has one, each attribute is that of one parent or of the other.
\<close>

definition connection_inherited :: "Connection list \<Rightarrow> Connection \<Rightarrow> Connection \<Rightarrow> bool" where
  "connection_inherited cxs2 c c1 =
     (cx_key c = cx_key c1 \<and>
      (case connection_get cxs2 (cx_key c1) of
         None \<Rightarrow> weight c = weight c1 \<and> enabled c = enabled c1
       | Some c2 \<Rightarrow> (weight c = weight c1 \<or> weight c = weight c2) \<and>
                    (enabled c = enabled c1 \<or> enabled c = enabled c2)))"

definition node_inherited :: "Node list \<Rightarrow> Node \<Rightarrow> Node \<Rightarrow> bool" where
  "node_inherited nodes2 n n1 =
     (node_id n = node_id n1 \<and>
      (case find_node_with_id nodes2 (node_id n1) of
         None \<Rightarrow> activation n = activation n1 \<and> node_type n = node_type n1
       | Some n2 \<Rightarrow> (activation n = activation n1 \<or> activation n = activation n2) \<and>
                    (node_type n = node_type n1 \<or> node_type n = node_type n2)))"

text \<open>The three scores of a genome.\<close>

definition scores :: "CPPN \<Rightarrow> real \<times> real \<times> real" where
  "scores g = (fitness g, adjusted_fitness g, novelty g)"

text \<open>
  The two-input genome during an evaluation at \<open>(0, 0)\<close>: both inputs hold the tensor \<open>[0]\<close> as
  sum and as output, the output node holds \<open>s\<close>.
\<close>

definition two_input_state ::
  "Config \<Rightarrow> string \<Rightarrow> int \<Rightarrow> real \<Rightarrow> real \<Rightarrow> nat \<Rightarrow> tensor option \<Rightarrow> CPPN" where
  "two_input_state cfg fn l w0 w1 c s =
     (two_input_genome cfg fn l w0 w1)
       \<lparr>cppn_id := c,
        node_genome :=
          [(new_node (- 1) ''identity'' INPUT 0)\<lparr>sum_inputs := Some [0], outputs := Some [0]\<rparr>,
           (new_node (- 2) ''identity'' INPUT 0)\<lparr>sum_inputs := Some [0], outputs := Some [0]\<rparr>,
           (new_node (- 3) fn OUTPUT l)\<lparr>sum_inputs := s, outputs := s\<rparr>]\<rparr>"

section \<open>Layer assignment as one pass over the nodes\<close>

lemma assign_layers_Some_iff:
  "(\<exists>nodes'. assign_layers i ls nodes = Some nodes') \<longleftrightarrow>
   \<Union>(set (map set ls)) \<subseteq> set (map node_id nodes)"
proof (induction ls arbitrary: i nodes)
  case Nil
  then show ?case by simp
next
  case (Cons lay rest)
  show ?case
  proof (cases "set lay \<subseteq> set (map node_id nodes)")
    case False
    then show ?thesis by (auto simp: assign_layer_def)
  next
    case True
    let ?ns = "map (\<lambda>n. if node_id n \<in> set lay then n\<lparr>layer := int i + 1\<rparr> else n) nodes"
    have ids: "map node_id ?ns = map node_id nodes" by (induction nodes) auto
    have al: "assign_layer i lay nodes = Some ?ns" using True by (simp add: assign_layer_def)
    have "(\<exists>nodes'. assign_layers (Suc i) rest ?ns = Some nodes') \<longleftrightarrow>
          \<Union>(set (map set rest)) \<subseteq> set (map node_id ?ns)"
      by (rule Cons.IH)
    then show ?thesis using True al ids by simp
  qed
qed

lemma assign_layers_eq:
  "assign_layers i ls nodes = Some nodes' \<Longrightarrow>
   nodes' = map (\<lambda>n. n\<lparr>layer := final_layer i ls (node_id n) (layer n)\<rparr>) nodes"
proof (induction ls arbitrary: i nodes)
  case Nil
  then show ?case by (simp add: map_idI)
next
  case (Cons lay rest)
  let ?ns = "map (\<lambda>n. if node_id n \<in> set lay then n\<lparr>layer := int i + 1\<rparr> else n) nodes"
  from Cons.prems have rest: "assign_layers (Suc i) rest ?ns = Some nodes'"
    by (auto simp: assign_layer_def split: if_splits option.splits)
  have "nodes' = map (\<lambda>n. n\<lparr>layer := final_layer (Suc i) rest (node_id n) (layer n)\<rparr>) ?ns"
    by (rule Cons.IH [OF rest])
  also have "\<dots> = map (\<lambda>n. n\<lparr>layer := final_layer i (lay # rest) (node_id n) (layer n)\<rparr>) nodes"
    by (induction nodes) simp_all
  finally show ?case .
qed

lemma final_layer_notin:
  "k \<notin> \<Union>(set (map set ls)) \<Longrightarrow> final_layer i ls k old = old"
  by (induction ls arbitrary: i) auto

lemma final_layer_in:
  "k \<in> \<Union>(set (map set ls)) \<Longrightarrow> final_layer i ls k a = final_layer i ls k b"
proof (induction ls arbitrary: i a b)
  case Nil
  then show ?case by simp
next
  case (Cons lay rest)
  show ?case
  proof (cases "k \<in> set lay")
    case True
    then show ?thesis by simp
  next
    case False
    with Cons.prems have "k \<in> \<Union>(set (map set rest))" by simp
    then have "final_layer (Suc i) rest k a = final_layer (Suc i) rest k b" by (rule Cons.IH)
    with False show ?thesis by simp
  qed
qed

lemma final_layer_idem: "final_layer i ls k (final_layer i ls k old) = final_layer i ls k old"
proof (cases "k \<in> \<Union>(set (map set ls))")
  case True
  then show ?thesis by (rule final_layer_in)
next
  case False
  then show ?thesis by (simp add: final_layer_notin)
qed

lemma relayer_id [simp]: "node_id (relayer ls n) = node_id n"
  and relayer_type [simp]: "node_type (relayer ls n) = node_type n"
  and relayer_activation [simp]: "activation (relayer ls n) = activation n"
  by (simp_all add: relayer_def)

lemma relayer_idem: "relayer ls (relayer ls n) = relayer ls n"
  by (simp add: relayer_def final_layer_idem)

lemma zero_input_layers_ids [simp]: "map node_id (zero_input_layers nodes) = map node_id nodes"
  by (induction nodes) (simp_all add: zero_input_layers_def)

lemma update_node_layers_Some_iff:
  "(\<exists>g'. update_node_layers g = Some g') \<longleftrightarrow>
   \<Union>(set (map set (feed_forward_layers g))) \<subseteq> set (map node_id (node_genome g))"
  using assign_layers_Some_iff [of 0 "feed_forward_layers g" "zero_input_layers (node_genome g)"]
  by (auto simp: update_node_layers_def)

lemma update_node_layers_eq:
  assumes "update_node_layers g = Some g'"
  shows "g' = g\<lparr>node_genome := map (relayer (feed_forward_layers g)) (node_genome g)\<rparr>"
proof -
  from assms obtain nodes' where
    a: "assign_layers 0 (feed_forward_layers g) (zero_input_layers (node_genome g)) = Some nodes'"
    and g': "g' = g\<lparr>node_genome := nodes'\<rparr>"
    by (auto simp: update_node_layers_def)
  have "nodes' = map (\<lambda>n. n\<lparr>layer := final_layer 0 (feed_forward_layers g) (node_id n) (layer n)\<rparr>)
                   (zero_input_layers (node_genome g))"
    by (rule assign_layers_eq [OF a])
  also have "\<dots> = map (relayer (feed_forward_layers g)) (node_genome g)"
    by (induction "node_genome g") (simp_all add: zero_input_layers_def relayer_def)
  finally show ?thesis using g' by simp
qed

lemma filter_map_skeleton:
  assumes "\<And>n. node_id (h n) = node_id n" "\<And>n. node_type (h n) = node_type n"
  shows "map node_id (filter (\<lambda>n. node_type n = t) (map h nodes)) =
         map node_id (filter (\<lambda>n. node_type n = t) nodes)"
  by (induction nodes) (simp_all add: assms)

lemma get_ids_relayer:
  "get_ids_from_individual (g\<lparr>node_genome := map (relayer ls) (node_genome g)\<rparr>) =
   get_ids_from_individual g"
  by (simp add: get_ids_from_individual_def input_nodes_def output_nodes_def filter_map_skeleton)

lemma feed_forward_layers_relayer:
  "feed_forward_layers (g\<lparr>node_genome := map (relayer ls) (node_genome g)\<rparr>) =
   feed_forward_layers g"
  by (simp add: feed_forward_layers_def get_ids_relayer)

section \<open>Layering is idempotent\<close>

text \<open>
  C9. Running \<^verbatim>\<open>update_node_layers\<close> a second time, with no mutation in between, computes the
  same layers and leaves the genome, and so the layer of every node, as the first run left it.
\<close>

theorem update_node_layers_idempotent:
  assumes "update_node_layers g = Some g'"
  shows "update_node_layers g' = Some g'"
proof -
  let ?L = "feed_forward_layers g"
  have g': "g' = g\<lparr>node_genome := map (relayer ?L) (node_genome g)\<rparr>"
    by (rule update_node_layers_eq [OF assms])
  have L': "feed_forward_layers g' = ?L"
    unfolding g' by (rule feed_forward_layers_relayer)
  have "\<Union>(set (map set ?L)) \<subseteq> set (map node_id (node_genome g))"
    using assms update_node_layers_Some_iff [of g] by blast
  then have "\<Union>(set (map set (feed_forward_layers g'))) \<subseteq> set (map node_id (node_genome g'))"
    unfolding L' by (simp add: g' comp_def)
  then obtain g'' where g'': "update_node_layers g' = Some g''"
    using update_node_layers_Some_iff [of g'] by blast
  have "g'' = g'\<lparr>node_genome := map (relayer ?L) (node_genome g')\<rparr>"
    using update_node_layers_eq [OF g''] unfolding L' .
  also have "\<dots> = g'"
    by (simp add: g' comp_def relayer_idem)
  finally show ?thesis using g'' by simp
qed

theorem update_node_layers_idempotent_witness:
  "update_node_layers (two_input_genome example_config ''linear'' 2 0 0)
     = Some (two_input_genome example_config ''linear'' 1 0 0)
   \<and> update_node_layers (two_input_genome example_config ''linear'' 1 0 0)
     = Some (two_input_genome example_config ''linear'' 1 0 0)"
proof -
  have h: "update_node_layers (two_input_genome example_config ''linear'' 2 0 0)
             = Some (two_input_genome example_config ''linear'' 1 0 0)"
    by code_simp
  show ?thesis using h update_node_layers_idempotent [OF h] by simp
qed

section \<open>The layers that the loop builds\<close>

lemma layers_loop_append:
  "layers_loop connections required s (xs @ ys) = xs @ layers_loop connections required s ys"
proof (induction connections required s ys arbitrary: xs rule: layers_loop.induct)
  case (1 connections required s layers)
  show ?case
  proof (cases "next_layer connections required s = []")
    case True
    then show ?thesis by (simp add: layers_loop.simps)
  next
    case False
    have "layers_loop connections required (s \<union> set (next_layer connections required s))
            (xs @ (layers @ [next_layer connections required s]))
          = xs @ layers_loop connections required (s \<union> set (next_layer connections required s))
            (layers @ [next_layer connections required s])"
      by (rule "1.IH" [OF False])
    with False show ?thesis
      by (simp add: layers_loop.simps [of connections required s "xs @ layers"]
          layers_loop.simps [of connections required s layers])
  qed
qed

lemma layers_loop_unfold:
  "layers_loop connections required s [] =
     (if next_layer connections required s = [] then []
      else next_layer connections required s
           # layers_loop connections required (s \<union> set (next_layer connections required s)) [])"
  using layers_loop_append [of connections required "s \<union> set (next_layer connections required s)"
      "[next_layer connections required s]" "[]"]
  by (simp add: layers_loop.simps [of connections required s "[]"])

lemma next_layer_props:
  "set (next_layer connections required s) \<inter> s = {}"
  "set (next_layer connections required s) \<subseteq> required"
  "set (next_layer connections required s) \<subseteq> snd ` set connections"
  "\<forall>(a, b) \<in> set connections. b \<in> set (next_layer connections required s) \<longrightarrow> a \<in> s"
  by (auto simp: next_layer_def get_candidate_nodes_def list_all_iff)

lemma good_layers_loop: "good_layers connections required s (layers_loop connections required s [])"
proof (rule layers_loop.induct
    [where P = "\<lambda>c r s ls. good_layers c r s (layers_loop c r s [])"])
  fix c :: "(int \<times> int) list" and r s :: "int set" and ls :: "int list list"
  assume IH: "next_layer c r s \<noteq> [] \<Longrightarrow>
      good_layers c r (s \<union> set (next_layer c r s)) (layers_loop c r (s \<union> set (next_layer c r s)) [])"
  show "good_layers c r s (layers_loop c r s [])"
  proof (cases "next_layer c r s = []")
    case True
    then show ?thesis by (simp add: layers_loop_unfold [of c r s])
  next
    case False
    with IH next_layer_props [of c r s] show ?thesis
      by (simp add: layers_loop_unfold [of c r s])
  qed
qed

lemma layers_loop_maximal:
  "next_layer connections required
     (s \<union> \<Union>(set (map set (layers_loop connections required s [])))) = []"
proof (rule layers_loop.induct
    [where P = "\<lambda>c r s ls. next_layer c r (s \<union> \<Union>(set (map set (layers_loop c r s [])))) = []"])
  fix c :: "(int \<times> int) list" and r s :: "int set" and ls :: "int list list"
  assume IH: "next_layer c r s \<noteq> [] \<Longrightarrow>
      next_layer c r (s \<union> set (next_layer c r s)
         \<union> \<Union>(set (map set (layers_loop c r (s \<union> set (next_layer c r s)) [])))) = []"
  show "next_layer c r (s \<union> \<Union>(set (map set (layers_loop c r s [])))) = []"
  proof (cases "next_layer c r s = []")
    case True
    then show ?thesis by (simp add: layers_loop_unfold [of c r s])
  next
    case False
    with IH show ?thesis
      by (simp add: layers_loop_unfold [of c r s] Un_assoc)
  qed
qed

lemma good_layers_disjoint:
  "good_layers connections required s ls \<Longrightarrow> k \<in> s \<Longrightarrow> k \<notin> \<Union>(set (map set ls))"
  by (induction ls arbitrary: s) auto

lemma good_layers_targets:
  "good_layers connections required s ls \<Longrightarrow> \<Union>(set (map set ls)) \<subseteq> snd ` set connections"
  by (induction ls arbitrary: s) auto

lemma good_layers_required:
  "good_layers connections required s ls \<Longrightarrow> \<Union>(set (map set ls)) \<subseteq> required"
  by (induction ls arbitrary: s) auto

lemma final_layer_lower:
  "k \<in> \<Union>(set (map set ls)) \<Longrightarrow> int i + 1 \<le> final_layer i ls k old"
proof (induction ls arbitrary: i old)
  case Nil
  then show ?case by simp
next
  case (Cons lay rest)
  show ?case
  proof (cases "k \<in> \<Union>(set (map set rest))")
    case True
    then have "int (Suc i) + 1 \<le> final_layer (Suc i) rest k (if k \<in> set lay then int i + 1 else old)"
      by (rule Cons.IH)
    then show ?thesis by simp
  next
    case False
    with Cons.prems have "k \<in> set lay" by simp
    with False show ?thesis by (simp add: final_layer_notin)
  qed
qed

lemma final_layer_upper:
  "k \<in> \<Union>(set (map set ls)) \<Longrightarrow> final_layer i ls k old \<le> int i + int (length ls)"
proof (induction ls arbitrary: i old)
  case Nil
  then show ?case by simp
next
  case (Cons lay rest)
  show ?case
  proof (cases "k \<in> \<Union>(set (map set rest))")
    case True
    then have "final_layer (Suc i) rest k (if k \<in> set lay then int i + 1 else old)
               \<le> int (Suc i) + int (length rest)"
      by (rule Cons.IH)
    then show ?thesis by simp
  next
    case False
    with Cons.prems have "k \<in> set lay" by simp
    with False show ?thesis by (simp add: final_layer_notin)
  qed
qed

lemma good_layers_order:
  assumes "good_layers connections required s ls"
    and "(a, b) \<in> set connections"
    and "b \<in> \<Union>(set (map set ls))"
    and "a \<notin> s"
  shows "a \<in> \<Union>(set (map set ls)) \<and> final_layer i ls a x < final_layer i ls b y"
  using assms
proof (induction ls arbitrary: s i x y)
  case Nil
  then show ?case by simp
next
  case (Cons lay rest)
  from Cons.prems(1) have good: "good_layers connections required (s \<union> set lay) rest"
    and inc: "\<forall>(a, b) \<in> set connections. b \<in> set lay \<longrightarrow> a \<in> s"
    by simp_all
  from inc Cons.prems(2,4) have b_notin: "b \<notin> set lay" by auto
  with Cons.prems(3) have b_rest: "b \<in> \<Union>(set (map set rest))" by simp
  show ?case
  proof (cases "a \<in> set lay")
    case True
    then have "a \<notin> \<Union>(set (map set rest))"
      using good_layers_disjoint [OF good, of a] by simp
    then have fa: "final_layer i (lay # rest) a x = int i + 1"
      using True by (simp add: final_layer_notin)
    have "int (Suc i) + 1 \<le> final_layer (Suc i) rest b y"
      using b_rest by (rule final_layer_lower)
    then have "int i + 1 < final_layer i (lay # rest) b y"
      using b_notin by simp
    with fa True show ?thesis by simp
  next
    case False
    with Cons.prems(4) have "a \<notin> s \<union> set lay" by simp
    from Cons.IH [OF good Cons.prems(2) b_rest this, of "Suc i" x y]
    show ?thesis using False b_notin by simp
  qed
qed


lemma find_node_distinct:
  "distinct (map node_id nodes) \<Longrightarrow> n \<in> set nodes \<Longrightarrow> find_node_with_id nodes (node_id n) = Some n"
  unfolding find_node_with_id_def
  by (induction nodes) (auto simp: rev_image_eqI)

lemma find_node_Some:
  "k \<in> set (map node_id nodes) \<Longrightarrow> \<exists>n. find_node_with_id nodes k = Some n \<and> node_id n = k \<and> n \<in> set nodes"
  unfolding find_node_with_id_def
  by (induction nodes) auto

lemma find_node_map:
  assumes "\<And>n. node_id (h n) = node_id n"
  shows "find_node_with_id (map h nodes) k = map_option h (find_node_with_id nodes k)"
  unfolding find_node_with_id_def
  by (induction nodes) (simp_all add: assms)

lemma feed_forward_layers_good:
  "good_layers (map cx_key (connection_genome g)) (required_nodes g)
     (set (map node_id (input_nodes g))) (feed_forward_layers g)"
  unfolding feed_forward_layers_def get_ids_from_individual_def required_nodes_def
  by (simp add: good_layers_loop)

lemma feed_forward_layers_maximal:
  "next_layer (map cx_key (connection_genome g)) (required_nodes g)
     (set (map node_id (input_nodes g)) \<union> placed g) = []"
  unfolding feed_forward_layers_def get_ids_from_individual_def required_nodes_def placed_def
  using layers_loop_maximal
    [of "map cx_key (connection_genome g)" _ "set (map node_id (input_nodes g))"]
  by simp

lemma placed_required: "placed g \<subseteq> required_nodes g"
  unfolding placed_def
  using good_layers_required [OF feed_forward_layers_good [of g]] .

lemma placed_targets: "placed g \<subseteq> snd ` set (map cx_key (connection_genome g))"
  unfolding placed_def
  using good_layers_targets [OF feed_forward_layers_good [of g]] .

lemma placed_not_input: "k \<in> set (map node_id (input_nodes g)) \<Longrightarrow> k \<notin> placed g"
  unfolding placed_def
  using good_layers_disjoint [OF feed_forward_layers_good [of g]] by blast

lemma endpoints_existD:
  "endpoints_exist g \<Longrightarrow> c \<in> set (connection_genome g) \<Longrightarrow>
   fst (cx_key c) \<in> set (map node_id (node_genome g)) \<and> snd (cx_key c) \<in> set (map node_id (node_genome g))"
  by (simp add: endpoints_exist_def list_all_iff)

lemma update_node_layers_total:
  assumes "endpoints_exist g"
  shows "\<exists>g'. update_node_layers g = Some g'"
proof -
  have "placed g \<subseteq> set (map node_id (node_genome g))"
    using placed_targets [of g] endpoints_existD [OF assms] by auto
  then show ?thesis
    using update_node_layers_Some_iff [of g] by (simp add: placed_def)
qed

lemma layer_of_relayer:
  "layer_of (g\<lparr>node_genome := map (relayer ls) (node_genome g)\<rparr>) k =
   map_option (\<lambda>n. final_layer 0 ls k (if node_type n = INPUT then 0 else layer n))
     (find_node_with_id (node_genome g) k)"
proof (cases "find_node_with_id (node_genome g) k")
  case None
  then show ?thesis by (simp add: layer_of_def find_node_map)
next
  case (Some n)
  then have "node_id n = k"
    unfolding find_node_with_id_def by (auto simp: find_Some_iff)
  with Some show ?thesis by (simp add: layer_of_def find_node_map relayer_def)
qed

section \<open>Layering: termination and the order of the layers\<close>

text \<open>
  C2, as amended. The functions \<open>required_for_output\<close>, \<open>feed_forward_layers\<close> and
  \<open>update_node_layers\<close> are total; on a genome that satisfies the invariant of the data model
  (one entry per key, the endpoints of every connection are nodes) the layer update returns, and
  afterwards
  \<^item> every input node has layer 0;
  \<^item> every node that the layering places in a layer has a layer between 1 and the number of
    layers; the placed nodes are required nodes, and the placement is maximal: no further required
    candidate has all its incoming connections inside the inputs and the placed nodes;
  \<^item> every connection into a placed node goes from a strictly smaller layer to a greater one.
  A node that is not placed keeps the layer it had.
\<close>

theorem update_node_layers_orders_placed:
  assumes wf: "wf_genome g"
  shows "\<exists>g'. update_node_layers g = Some g' \<and>
           placed g \<subseteq> required_nodes g \<and>
           next_layer (map cx_key (connection_genome g)) (required_nodes g)
             (set (map node_id (input_nodes g)) \<union> placed g) = [] \<and>
           (\<forall>n \<in> set (node_genome g'). node_type n = INPUT \<longrightarrow> layer n = 0) \<and>
           (\<forall>k \<in> placed g. \<exists>l. layer_of g' k = Some l \<and> 1 \<le> l \<and>
                                  l \<le> int (length (feed_forward_layers g))) \<and>
           (\<forall>c \<in> set (connection_genome g'). snd (cx_key c) \<in> placed g \<longrightarrow>
              (\<exists>la lb. layer_of g' (fst (cx_key c)) = Some la \<and>
                       layer_of g' (snd (cx_key c)) = Some lb \<and> la < lb))"
proof -
  let ?L = "feed_forward_layers g"
  let ?conns = "map cx_key (connection_genome g)"
  let ?ins = "set (map node_id (input_nodes g))"
  from wf have dist: "distinct (map node_id (node_genome g))" and ends: "endpoints_exist g"
    by (simp_all add: wf_genome_def)
  obtain g' where up: "update_node_layers g = Some g'"
    using update_node_layers_total [OF ends] by blast
  have g': "g' = g\<lparr>node_genome := map (relayer ?L) (node_genome g)\<rparr>"
    by (rule update_node_layers_eq [OF up])
  have good: "good_layers ?conns (required_nodes g) ?ins ?L"
    by (rule feed_forward_layers_good)
  have inputs0: "\<forall>n \<in> set (node_genome g'). node_type n = INPUT \<longrightarrow> layer n = 0"
  proof (intro ballI impI)
    fix n' assume n': "n' \<in> set (node_genome g')" and t: "node_type n' = INPUT"
    from n' obtain n where n: "n \<in> set (node_genome g)" and eq: "n' = relayer ?L n"
      by (auto simp: g')
    from t eq have tn: "node_type n = INPUT" by simp
    with n have "node_id n \<in> ?ins" by (auto simp: input_nodes_def)
    then have "node_id n \<notin> placed g" by (rule placed_not_input)
    then show "layer n' = 0"
      using tn eq by (simp add: relayer_def placed_def final_layer_notin)
  qed
  have placed_layer: "\<exists>l. layer_of g' k = Some l \<and> 1 \<le> l \<and> l \<le> int (length ?L)"
    if k: "k \<in> placed g" for k
  proof -
    have "k \<in> set (map node_id (node_genome g))"
      using k placed_targets [of g] endpoints_existD [OF ends] by auto
    then obtain n where n: "find_node_with_id (node_genome g) k = Some n"
      using find_node_Some by blast
    let ?old = "if node_type n = INPUT then 0 else layer n"
    have l: "layer_of g' k = Some (final_layer 0 ?L k ?old)"
      unfolding g' by (simp add: layer_of_relayer n)
    have "int 0 + 1 \<le> final_layer 0 ?L k ?old"
      using k unfolding placed_def by (rule final_layer_lower)
    moreover have "final_layer 0 ?L k ?old \<le> int 0 + int (length ?L)"
      using k unfolding placed_def by (rule final_layer_upper)
    ultimately show ?thesis using l by simp
  qed
  have order: "\<exists>la lb. layer_of g' (fst (cx_key c)) = Some la \<and>
                  layer_of g' (snd (cx_key c)) = Some lb \<and> la < lb"
    if c: "c \<in> set (connection_genome g')" and b: "snd (cx_key c) \<in> placed g" for c
  proof -
    let ?a = "fst (cx_key c)" and ?b = "snd (cx_key c)"
    from c have cg: "c \<in> set (connection_genome g)" by (simp add: g')
    then have conn: "(?a, ?b) \<in> set ?conns" by force
    from endpoints_existD [OF ends cg] obtain na where
      na: "find_node_with_id (node_genome g) ?a = Some na" and na_id: "node_id na = ?a"
      and na_in: "na \<in> set (node_genome g)"
      using find_node_Some by blast
    from endpoints_existD [OF ends cg] obtain nb where
      nb: "find_node_with_id (node_genome g) ?b = Some nb"
      using find_node_Some by blast
    let ?xa = "if node_type na = INPUT then 0 else layer na"
    let ?xb = "if node_type nb = INPUT then 0 else layer nb"
    have la: "layer_of g' ?a = Some (final_layer 0 ?L ?a ?xa)"
      unfolding g' by (simp add: layer_of_relayer na)
    have lb: "layer_of g' ?b = Some (final_layer 0 ?L ?b ?xb)"
      unfolding g' by (simp add: layer_of_relayer nb)
    have "final_layer 0 ?L ?a ?xa < final_layer 0 ?L ?b ?xb"
    proof (cases "?a \<in> ?ins")
      case True
      then obtain m where m: "m \<in> set (node_genome g)" "node_type m = INPUT" "node_id m = ?a"
        by (auto simp: input_nodes_def)
      from find_node_distinct [OF dist m(1)] m(3) na have "m = na" by simp
      with m(2) have xa: "?xa = 0" by simp
      from True have "?a \<notin> placed g" by (rule placed_not_input)
      then have "final_layer 0 ?L ?a ?xa = 0"
        using xa by (simp add: placed_def final_layer_notin)
      moreover have "int 0 + 1 \<le> final_layer 0 ?L ?b ?xb"
        using b unfolding placed_def by (rule final_layer_lower)
      ultimately show ?thesis by simp
    next
      case False
      from good_layers_order [OF good conn _ False, of 0 ?xa ?xb] b
      show ?thesis by (simp add: placed_def)
    qed
    with la lb show ?thesis by simp
  qed
  from up inputs0 placed_layer order placed_required [of g] feed_forward_layers_maximal [of g]
  show ?thesis by blast
qed

theorem update_node_layers_orders_placed_witness:
  "wf_genome (two_input_genome example_config ''linear'' 2 0 0) \<and>
   (\<exists>g'. update_node_layers (two_input_genome example_config ''linear'' 2 0 0) = Some g' \<and>
      layer_of g' (- 3) = Some 1 \<and> layer_of g' (- 1) = Some 0)"
proof -
  have h: "wf_genome (two_input_genome example_config ''linear'' 2 0 0)"
    by code_simp
  have u: "update_node_layers (two_input_genome example_config ''linear'' 2 0 0)
             = Some (two_input_genome example_config ''linear'' 1 0 0)"
    by code_simp
  have "layer_of (two_input_genome example_config ''linear'' 1 0 0) (- 3) = Some 1"
    and "layer_of (two_input_genome example_config ''linear'' 1 0 0) (- 1) = Some 0"
    by code_simp+
  with h u update_node_layers_orders_placed [OF h] show ?thesis by simp
qed

text \<open>
  The genome \<open>stale_genome\<close> is what the operators of the source produce from a freshly built
  genome by three \<^verbatim>\<open>add_node\<close> calls and one \<^verbatim>\<open>remove_node\<close> call.
\<close>

lemma stale_genome_reached:
  "run_split3 = Some (stale_genome, \<lparr>node_indexer = Some 3, current_id = 2\<rparr>)"
  by code_simp

text \<open>
  C2 as stated fails on \<open>stale_genome\<close>, where recurrence is disallowed. The output \<open>-3\<close> is
  required and the input \<open>-2\<close> feeds it, but its incoming connection from node 2, which no input
  reaches, keeps it out of every layer: the layering places nothing, the update changes nothing,
  and the connection \<open>(2, -3)\<close> goes from layer 999 to layer 3.
\<close>

theorem update_node_layers_order_counterexample:
  "wf_genome stale_genome \<and> \<not> allow_recurrent (config stale_genome) \<and>
   - 3 \<in> required_nodes stale_genome \<and>
   (- 2, - 3) \<in> set (map cx_key (connection_genome stale_genome)) \<and>
   - 2 \<in> set (map node_id (input_nodes stale_genome)) \<and>
   feed_forward_layers stale_genome = [] \<and>
   update_node_layers stale_genome = Some stale_genome \<and>
   (2, - 3) \<in> set (map cx_key (connection_genome stale_genome)) \<and>
   layer_of stale_genome 2 = Some 999 \<and> layer_of stale_genome (- 3) = Some 3"
  by code_simp



section \<open>Removing a node\<close>

lemma update_node_layers_frame:
  assumes "update_node_layers g = Some g'"
  shows "connection_genome g' = connection_genome g"
    and "map node_id (node_genome g') = map node_id (node_genome g)"
    and "map node_type (node_genome g') = map node_type (node_genome g)"
    and "map activation (node_genome g') = map activation (node_genome g)"
    and "config g' = config g"
    and "fitness g' = fitness g" and "adjusted_fitness g' = adjusted_fitness g"
    and "novelty g' = novelty g"
  using update_node_layers_eq [OF assms] by (simp_all add: comp_def)

lemma update_node_layers_wf:
  assumes "update_node_layers g = Some g'" and "wf_genome g"
  shows "wf_genome g'"
  using assms(2) update_node_layers_frame [OF assms(1)]
  by (simp add: wf_genome_def endpoints_exist_def)

lemma is_randperm_hd:
  assumes "is_randperm n perm" and "0 < n"
  shows "take 1 perm = [hd perm]" and "hd perm < n"
proof -
  from assms have "perm \<noteq> []" by (auto simp: is_randperm_def)
  then show "take 1 perm = [hd perm]" by (cases perm) simp_all
  from \<open>perm \<noteq> []\<close> have "hd perm \<in> set perm" by simp
  with assms show "hd perm < n" by (simp add: is_randperm_def)
qed

text \<open>
  C6. On a genome that satisfies the invariant of the data model, \<^verbatim>\<open>remove_node\<close> returns, and
  in the result every connection has both endpoints in the node genome. When there is a hidden
  node, the node that the draw picks is a hidden node of the genome; its entry goes, and so does
  every connection that has its id in the key; all other nodes and connections stay. Without a
  hidden node the genome is returned as it is.
\<close>

theorem remove_node_no_dangling:
  assumes wf: "wf_genome g" and perm: "is_randperm (length (hidden_nodes g)) perm"
  shows "\<exists>g'. remove_node g perm = Some g' \<and> wf_genome g' \<and> endpoints_exist g' \<and>
           (if hidden_nodes g = [] then g' = g
            else node_type (hidden_nodes g ! hd perm) = HIDDEN \<and>
                 hidden_nodes g ! hd perm \<in> set (node_genome g) \<and>
                 map node_id (node_genome g')
                   = filter (\<lambda>k. k \<noteq> node_id (hidden_nodes g ! hd perm)) (map node_id (node_genome g)) \<and>
                 connection_genome g'
                   = filter (\<lambda>cx. \<not> incident (node_id (hidden_nodes g ! hd perm)) cx)
                       (connection_genome g))"
proof (cases "hidden_nodes g = []")
  case True
  with wf show ?thesis by (simp add: remove_node_def wf_genome_def)
next
  case False
  let ?h = "hidden_nodes g ! hd perm"
  let ?r = "node_id ?h"
  let ?cxs = "filter (\<lambda>cx. \<not> (fst (cx_key cx) = ?r \<or> snd (cx_key cx) = ?r)) (connection_genome g)"
  let ?nodes = "filter (\<lambda>n. node_id n \<noteq> ?r) (node_genome g)"
  let ?g1 = "g\<lparr>connection_genome := ?cxs, node_genome := ?nodes\<rparr>"
  from False have pos: "0 < length (hidden_nodes g)" by simp
  note hd = is_randperm_hd [OF perm pos]
  have choice: "random_choice (map node_id (hidden_nodes g)) 1 perm = [?r]"
    using hd by (simp add: random_choice_def)
  have h_in: "?h \<in> set (hidden_nodes g)" using hd(2) by simp
  then have h_hidden: "node_type ?h = HIDDEN" and h_node: "?h \<in> set (node_genome g)"
    by (simp_all add: hidden_nodes_def)
  have ids1: "map node_id ?nodes = filter (\<lambda>k. k \<noteq> ?r) (map node_id (node_genome g))"
    by (simp add: filter_map comp_def)
  have wf1: "wf_genome ?g1"
    using wf
    by (auto simp: wf_genome_def endpoints_exist_def list_all_iff distinct_map_filter ids1
        simp del: )
  then have "endpoints_exist ?g1" by (simp add: wf_genome_def)
  then obtain g' where up: "update_node_layers ?g1 = Some g'"
    using update_node_layers_total by blast
  have wf': "wf_genome g'" by (rule update_node_layers_wf [OF up wf1])
  have rm: "remove_node g perm = Some (g'\<lparr>image := None\<rparr>)"
    using False choice up by (simp add: remove_node_def disable_invalid_connections_def)
  have wf'': "wf_genome (g'\<lparr>image := None\<rparr>)"
    using wf' by (simp add: wf_genome_def endpoints_exist_def)
  from update_node_layers_frame(1,2) [OF up]
  have "map node_id (node_genome (g'\<lparr>image := None\<rparr>)) = filter (\<lambda>k. k \<noteq> ?r) (map node_id (node_genome g))"
    and "connection_genome (g'\<lparr>image := None\<rparr>) = filter (\<lambda>cx. \<not> incident ?r cx) (connection_genome g)"
    by (simp_all add: ids1 incident_def)
  with rm wf'' False h_hidden h_node show ?thesis
    by (simp add: wf_genome_def)
qed


theorem remove_node_no_dangling_witness:
  "wf_genome stale_genome \<and> is_randperm (length (hidden_nodes stale_genome)) [0, 1] \<and>
   (\<exists>g'. remove_node stale_genome [0, 1] = Some g' \<and> endpoints_exist g' \<and>
      map node_id (node_genome g') = [- 1, - 2, - 3, 2])"
proof -
  have h1: "wf_genome stale_genome" by code_simp
  have h2: "is_randperm (length (hidden_nodes stale_genome)) [0, 1]" by code_simp
  have r: "filter (\<lambda>k. k \<noteq> node_id (hidden_nodes stale_genome ! hd [0, 1]))
             (map node_id (node_genome stale_genome)) = [- 1, - 2, - 3, 2]"
    by code_simp
  have ne: "hidden_nodes stale_genome \<noteq> []" by code_simp
  from remove_node_no_dangling [OF h1 h2] r ne h1 h2 show ?thesis by auto
qed

text \<open>
  C3. The source ends \<^verbatim>\<open>remove_node\<close> with \<^verbatim>\<open>disable_invalid_connections\<close>, whose docstring
  promises to disable the connections that the validity check rejects and whose body returns at
  once. On \<open>stale_genome\<close>, which has two hidden nodes, removing node 1 recomputes the layers and
  leaves the connection \<open>(2, -3)\<close> enabled although \<^verbatim>\<open>is_valid_connection\<close> rejects it (layer
  999 before layer 3, recurrence disallowed).
\<close>

theorem remove_node_keeps_rejected_connection_enabled:
  "hidden_nodes stale_genome \<noteq> [] \<and>
   remove_node stale_genome [0, 1] = Some after_removal \<and>
   \<not> allow_recurrent (config after_removal) \<and>
   map_option enabled (connection_get (connection_genome after_removal) (2, - 3)) = Some True \<and>
   is_valid_connection (node_genome after_removal) (2, - 3) (config after_removal) = Some False"
  by code_simp

section \<open>Adding a connection\<close>

lemma is_randperm_length: "is_randperm n perm \<Longrightarrow> length perm = n"
  using distinct_card [of perm] by (simp add: is_randperm_def)

lemma is_randperm_two:
  assumes "is_randperm n perm" and "2 \<le> n"
  shows "take 2 perm = [perm ! 0, perm ! 1]" and "perm ! 0 < n" and "perm ! 1 < n"
    and "perm ! 0 \<noteq> perm ! 1"
proof -
  have len: "length perm = n" by (rule is_randperm_length [OF assms(1)])
  with assms(2) obtain a b rest where p: "perm = a # b # rest"
    by (cases perm; cases "tl perm") auto
  then show "take 2 perm = [perm ! 0, perm ! 1]" by simp
  have "perm ! 0 \<in> set perm" "perm ! 1 \<in> set perm" using p by simp_all
  with assms(1) show "perm ! 0 < n" "perm ! 1 < n" by (simp_all add: is_randperm_def)
  from assms(1) p show "perm ! 0 \<noteq> perm ! 1" by (auto simp: is_randperm_def)
qed

lemma connection_get_Some_key:
  "connection_get cxs k = Some cx \<Longrightarrow> cx_key cx = k \<and> cx \<in> set cxs"
  unfolding connection_get_def by (auto simp: find_Some_iff)

lemma connection_get_None_iff:
  "connection_get cxs k = None \<longleftrightarrow> k \<notin> set (map cx_key cxs)"
  unfolding connection_get_def by (auto simp: find_None_iff)

lemma set_enabled_keys [simp]: "map cx_key (set_enabled k v cxs) = map cx_key cxs"
  by (induction cxs) (simp_all add: set_enabled_def)

lemma set_enabled_length [simp]: "length (set_enabled k v cxs) = length cxs"
  by (simp add: set_enabled_def)

text \<open>One attempt, for a permutation of the node positions.\<close>

lemma add_connection_loop_step:
  assumes d: "draws i = (perm, u_reenable, u_weight)"
    and p: "is_randperm (length (node_genome g)) perm"
    and n2: "2 \<le> length (node_genome g)"
  shows "add_connection_loop (Suc remaining) i draws g =
     (case connection_get (connection_genome g) (sampled_key g perm) of
        Some existing_cx \<Rightarrow> Some (reenabled g (sampled_key g perm) u_reenable)
      | None \<Rightarrow>
          (case is_valid_connection (node_genome g) (sampled_key g perm) (config g) of
             None \<Rightarrow> None
           | Some True \<Rightarrow>
               do {
                 cxs \<leftarrow> insert_new_connection
                          (new_connection (sampled_key g perm) (random_weight (config g) u_weight))
                          (connection_genome g);
                 update_node_layers (g\<lparr>connection_genome := cxs\<rparr>)
               }
           | Some False \<Rightarrow> add_connection_loop remaining (Suc i) draws g))"
proof -
  note two = is_randperm_two [OF p n2]
  have rc: "random_choice (node_genome g) 2 perm
            = [node_genome g ! (perm ! 0), node_genome g ! (perm ! 1)]"
    by (simp add: random_choice_def two(1))
  have ksym: "(node_id (node_genome g ! (perm ! 0)), node_id (node_genome g ! (perm ! Suc 0)))
              = sampled_key g perm"
    by (simp add: sampled_key_def)
  show ?thesis
  proof (cases "connection_get (connection_genome g) (sampled_key g perm)")
    case None
    then show ?thesis
      by (simp add: d rc ksym split: option.split bool.split)
  next
    case (Some cx)
    then have "cx_key cx = sampled_key g perm" by (simp add: connection_get_Some_key)
    with Some show ?thesis
      by (simp add: d rc ksym reenabled_def)
  qed
qed

lemma sampled_key_nodes:
  assumes p: "is_randperm (length (node_genome g)) perm" and n2: "2 \<le> length (node_genome g)"
  shows "fst (sampled_key g perm) \<in> set (map node_id (node_genome g))"
    and "snd (sampled_key g perm) \<in> set (map node_id (node_genome g))"
  using is_randperm_two(2,3) [OF p n2] by (simp_all add: sampled_key_def)

lemma is_valid_connection_total:
  assumes "fst k \<in> set (map node_id nodes)" and "snd k \<in> set (map node_id nodes)"
  shows "is_valid_connection nodes k cfg \<noteq> None"
proof -
  from find_node_Some [OF assms(1)] obtain a where "find_node_with_id nodes (fst k) = Some a" by blast
  moreover from find_node_Some [OF assms(2)] obtain b where "find_node_with_id nodes (snd k) = Some b" by blast
  ultimately show ?thesis
    by (simp add: is_valid_connection_def del: not_None_eq)
qed

lemma add_connection_loop_outcome:
  assumes wf: "wf_genome g" and n2: "2 \<le> length (node_genome g)"
    and perms: "\<forall>j. i \<le> j \<and> j < i + remaining \<longrightarrow> is_randperm (length (node_genome g)) (fst (draws j))"
  shows "\<exists>g'. add_connection_loop remaining i draws g = Some g' \<and> add_connection_outcome g g'"
  using perms
proof (induction remaining arbitrary: i)
  case 0
  then show ?case by (simp add: add_connection_outcome_def)
next
  case (Suc remaining)
  obtain perm u_reenable u_weight where d: "draws i = (perm, u_reenable, u_weight)"
    by (cases "draws i") auto
  from Suc.prems d have p: "is_randperm (length (node_genome g)) perm" by force
  let ?k = "sampled_key g perm"
  note step = add_connection_loop_step
    [where draws = draws and i = i and remaining = remaining, OF d p n2]
  note kn = sampled_key_nodes [OF p n2]
  show ?case
  proof (cases "connection_get (connection_genome g) ?k")
    case (Some cx)
    then have "add_connection_loop (Suc remaining) i draws g = Some (reenabled g ?k u_reenable)"
      using step by simp
    moreover have "add_connection_outcome g (reenabled g ?k u_reenable)"
    proof (cases "\<not> enabled cx \<and> random_uniform u_reenable 0 1 < prob_reenable_connection (config g)")
      case True
      with Some have "reenabled g ?k u_reenable
                      = g\<lparr>connection_genome := set_enabled ?k True (connection_genome g)\<rparr>"
        by (simp add: reenabled_def)
      with Some True show ?thesis unfolding add_connection_outcome_def by blast
    next
      case False
      with Some have "reenabled g ?k u_reenable = g" by (auto simp: reenabled_def)
      then show ?thesis by (simp add: add_connection_outcome_def)
    qed
    ultimately show ?thesis by blast
  next
    case None
    from is_valid_connection_total [OF kn] obtain v where
      v: "is_valid_connection (node_genome g) ?k (config g) = Some v" by fastforce
    show ?thesis
    proof (cases v)
      case False
      have "\<exists>g'. add_connection_loop remaining (Suc i) draws g = Some g' \<and> add_connection_outcome g g'"
        by (rule Suc.IH) (use Suc.prems in auto)
      then show ?thesis using step None v False by simp
    next
      case True
      let ?cx = "new_connection ?k (random_weight (config g) u_weight)"
      let ?g1 = "g\<lparr>connection_genome := connection_genome g @ [?cx]\<rparr>"
      from None have fresh: "?k \<notin> set (map cx_key (connection_genome g))"
        by (simp add: connection_get_None_iff)
      then have ins: "insert_new_connection ?cx (connection_genome g) = Some (connection_genome g @ [?cx])"
        by (simp add: insert_new_connection_def new_connection_def)
      have "endpoints_exist ?g1"
        using wf kn by (simp add: wf_genome_def endpoints_exist_def new_connection_def)
      then obtain g' where up: "update_node_layers ?g1 = Some g'"
        using update_node_layers_total by blast
      have "add_connection_loop (Suc remaining) i draws g = Some g'"
        using step None v True ins up by simp
      moreover have "is_valid_connection (node_genome g) ?k (config g) = Some True"
        using v True by simp
      then have "add_connection_outcome g g'"
        unfolding add_connection_outcome_def using fresh kn up by blast
      ultimately show ?thesis by blast
    qed
  qed
qed


lemma add_connection_loop_all_rejected:
  assumes n2: "2 \<le> length (node_genome g)"
    and perms: "\<forall>j. i \<le> j \<and> j < i + remaining \<longrightarrow> is_randperm (length (node_genome g)) (fst (draws j))"
    and rej: "\<forall>j. i \<le> j \<and> j < i + remaining \<longrightarrow> attempt_rejected g (fst (draws j))"
  shows "add_connection_loop remaining i draws g = Some g"
  using perms rej
proof (induction remaining arbitrary: i)
  case 0
  then show ?case by simp
next
  case (Suc remaining)
  obtain perm u_reenable u_weight where d: "draws i = (perm, u_reenable, u_weight)"
    by (cases "draws i") auto
  from Suc.prems(1) d have p: "is_randperm (length (node_genome g)) perm" by force
  from Suc.prems(2) d have r: "attempt_rejected g perm" by force
  note step = add_connection_loop_step
    [where draws = draws and i = i and remaining = remaining, OF d p n2]
  have "add_connection_loop remaining (Suc i) draws g = Some g"
    by (rule Suc.IH) (use Suc.prems in auto)
  with step r show ?case by (simp add: attempt_rejected_def)
qed

lemma add_connection_loop_first_existing:
  assumes n2: "2 \<le> length (node_genome g)"
    and j: "j < remaining"
    and perms: "\<forall>m. m \<le> j \<longrightarrow> is_randperm (length (node_genome g)) (fst (draws (i + m)))"
    and rej: "\<forall>m. m < j \<longrightarrow> attempt_rejected g (fst (draws (i + m)))"
    and ex: "connection_get (connection_genome g) (sampled_key g (fst (draws (i + j)))) \<noteq> None"
  shows "add_connection_loop remaining i draws g
         = Some (reenabled g (sampled_key g (fst (draws (i + j)))) (fst (snd (draws (i + j)))))"
  using j perms rej ex
proof (induction j arbitrary: i remaining)
  case 0
  then obtain r where rem: "remaining = Suc r" by (cases remaining) auto
  obtain perm u_reenable u_weight where d: "draws i = (perm, u_reenable, u_weight)"
    by (cases "draws i") auto
  from "0.prems"(2) d have p: "is_randperm (length (node_genome g)) perm" by force
  note step = add_connection_loop_step
    [where draws = draws and i = i and remaining = r, OF d p n2]
  from "0.prems"(4) d step show ?case unfolding rem by auto
next
  case (Suc j)
  then obtain r where rem: "remaining = Suc r" and jr: "j < r" by (cases remaining) auto
  obtain perm u_reenable u_weight where d: "draws i = (perm, u_reenable, u_weight)"
    by (cases "draws i") auto
  from Suc.prems(2) [rule_format, of 0] d have p: "is_randperm (length (node_genome g)) perm" by simp
  from Suc.prems(3) [rule_format, of 0] d have rj: "attempt_rejected g perm" by simp
  note step = add_connection_loop_step
    [where draws = draws and i = i and remaining = r, OF d p n2]
  have "add_connection_loop r (Suc i) draws g
        = Some (reenabled g (sampled_key g (fst (draws (Suc i + j)))) (fst (snd (draws (Suc i + j)))))"
  proof (rule Suc.IH [OF jr])
    show "\<forall>m. m \<le> j \<longrightarrow> is_randperm (length (node_genome g)) (fst (draws (Suc i + m)))"
      using Suc.prems(2) by (metis Suc_le_mono add_Suc_shift)
    show "\<forall>m. m < j \<longrightarrow> attempt_rejected g (fst (draws (Suc i + m)))"
      using Suc.prems(3) by (metis Suc_less_eq add_Suc_shift)
    show "connection_get (connection_genome g) (sampled_key g (fst (draws (Suc i + j)))) \<noteq> None"
      using Suc.prems(4) by simp
  qed
  with step rj show ?case unfolding rem by (simp add: attempt_rejected_def)
qed

lemma is_valid_connection_self:
  "is_valid_connection nodes (a, a) cfg \<noteq> Some True"
  by (simp add: is_valid_connection_def split: option.splits)

lemma no_valid_new_edge_outcome:
  assumes sat: "no_valid_new_edge g" and out: "add_connection_outcome g g'"
  shows "length (connection_genome g') = length (connection_genome g)"
proof -
  have no_add: False
    if k: "k \<notin> set (map cx_key (connection_genome g))"
      and a: "fst k \<in> set (map node_id (node_genome g))"
      and b: "snd k \<in> set (map node_id (node_genome g))"
      and v: "is_valid_connection (node_genome g) k (config g) = Some True" for k
  proof -
    from a obtain na where na: "na \<in> set (node_genome g)" "node_id na = fst k" by auto
    from b obtain nb where nb: "nb \<in> set (node_genome g)" "node_id nb = snd k" by auto
    from sat na(1) nb(1) have
      "node_id na = node_id nb \<or>
       connection_get (connection_genome g) (node_id na, node_id nb) \<noteq> None \<or>
       is_valid_connection (node_genome g) (node_id na, node_id nb) (config g) = Some False"
      by (simp add: no_valid_new_edge_def list_all_iff)
    moreover have "(node_id na, node_id nb) = k" using na(2) nb(2) by simp
    moreover have "connection_get (connection_genome g) k = None"
      using k by (simp add: connection_get_None_iff)
    moreover have "fst k \<noteq> snd k"
      using v is_valid_connection_self [of "node_genome g" "fst k" "config g"]
      by (cases k) auto
    ultimately show False using v na(2) nb(2) by auto
  qed
  from out show ?thesis
    unfolding add_connection_outcome_def
  proof (elim disjE exE conjE)
    assume "g' = g" then show ?thesis by simp
  next
    fix k cx assume "g' = g\<lparr>connection_genome := set_enabled k True (connection_genome g)\<rparr>"
    then show ?thesis by simp
  next
    fix k w
    assume "k \<notin> set (map cx_key (connection_genome g))"
      "fst k \<in> set (map node_id (node_genome g))"
      "snd k \<in> set (map node_id (node_genome g))"
      "is_valid_connection (node_genome g) k (config g) = Some True"
    then have False by (rule no_add)
    then show ?thesis ..
  qed
qed

lemma add_connection_outcome_keys:
  assumes wf: "wf_genome g" and out: "add_connection_outcome g g'"
  shows "distinct (map cx_key (connection_genome g')) \<and>
         (map cx_key (connection_genome g') = map cx_key (connection_genome g) \<or>
          (\<exists>k w. k \<notin> set (map cx_key (connection_genome g)) \<and>
             connection_genome g' = connection_genome g @ [new_connection k w]))"
  using out unfolding add_connection_outcome_def
proof (elim disjE exE conjE)
  assume "g' = g" with wf show ?thesis by (simp add: wf_genome_def)
next
  fix k cx assume "g' = g\<lparr>connection_genome := set_enabled k True (connection_genome g)\<rparr>"
  with wf show ?thesis by (simp add: wf_genome_def)
next
  fix k w
  assume k: "k \<notin> set (map cx_key (connection_genome g))"
    and up: "update_node_layers (g\<lparr>connection_genome := connection_genome g @ [new_connection k w]\<rparr>)
               = Some g'"
  from update_node_layers_frame(1) [OF up]
  have eq: "connection_genome g' = connection_genome g @ [new_connection k w]" by simp
  have "distinct (map cx_key (connection_genome g'))"
    using wf k unfolding eq by (simp add: wf_genome_def new_connection_def)
  with k eq show ?thesis by blast
qed

text \<open>
  C7. On a genome that satisfies the invariant of the data model and has at least two nodes,
  \<^verbatim>\<open>add_connection\<close> returns, and
  \<^item> the keys of the connection genome are unchanged, or exactly one connection with a key that
    was not present is appended; keys stay distinct;
  \<^item> if attempt \<open>j\<close> is the first that samples a pair that exists as a connection (all earlier
    attempts were rejected), the result is fixed by that attempt alone: the connection is enabled
    again exactly when it was disabled and the draw is below \<^verbatim>\<open>prob_reenable_connection\<close>, and
    no later draw matters;
  \<^item> if all 20 attempts are rejected, only the cached image is reset;
  \<^item> on a genome with no valid new connection between two distinct nodes, the number of
    connections is unchanged.
\<close>

theorem add_connection_adds_at_most_one:
  assumes wf: "wf_genome g" and n2: "2 \<le> length (node_genome g)"
    and perms: "\<forall>i<20. is_randperm (length (node_genome g)) (fst (draws i))"
  shows "\<exists>g'. add_connection g draws = Some g' \<and>
           distinct (map cx_key (connection_genome g')) \<and>
           (map cx_key (connection_genome g') = map cx_key (connection_genome g) \<or>
            (\<exists>k w. k \<notin> set (map cx_key (connection_genome g)) \<and>
               connection_genome g' = connection_genome g @ [new_connection k w])) \<and>
           (\<forall>j<20. (\<forall>m<j. attempt_rejected g (fst (draws m))) \<and>
                   connection_get (connection_genome g) (sampled_key g (fst (draws j))) \<noteq> None \<longrightarrow>
                   g' = (reenabled g (sampled_key g (fst (draws j))) (fst (snd (draws j))))
                          \<lparr>image := None\<rparr>) \<and>
           ((\<forall>m<20. attempt_rejected g (fst (draws m))) \<longrightarrow> g' = g\<lparr>image := None\<rparr>) \<and>
           (no_valid_new_edge g \<longrightarrow>
              length (connection_genome g') = length (connection_genome g))"
proof -
  from perms have perms0:
    "\<forall>j. 0 \<le> j \<and> j < 0 + 20 \<longrightarrow> is_randperm (length (node_genome g)) (fst (draws j))"
    by simp
  from add_connection_loop_outcome [OF wf n2 perms0] obtain g1 where
    loop: "add_connection_loop 20 0 draws g = Some g1" and out: "add_connection_outcome g g1"
    by blast
  let ?g' = "g1\<lparr>image := None\<rparr>"
  have res: "add_connection g draws = Some ?g'"
    by (simp add: add_connection_def loop)
  have keys: "distinct (map cx_key (connection_genome ?g')) \<and>
         (map cx_key (connection_genome ?g') = map cx_key (connection_genome g) \<or>
          (\<exists>k w. k \<notin> set (map cx_key (connection_genome g)) \<and>
             connection_genome ?g' = connection_genome g @ [new_connection k w]))"
    using add_connection_outcome_keys [OF wf out] by simp
  have stop: "?g' = (reenabled g (sampled_key g (fst (draws j))) (fst (snd (draws j))))\<lparr>image := None\<rparr>"
    if j: "j < 20" and rej: "\<forall>m<j. attempt_rejected g (fst (draws m))"
      and ex: "connection_get (connection_genome g) (sampled_key g (fst (draws j))) \<noteq> None" for j
  proof -
    have "add_connection_loop 20 0 draws g
          = Some (reenabled g (sampled_key g (fst (draws (0 + j)))) (fst (snd (draws (0 + j)))))"
      by (rule add_connection_loop_first_existing [OF n2 j]) (use perms j rej ex in auto)
    with loop show ?thesis by simp
  qed
  have none: "?g' = g\<lparr>image := None\<rparr>" if rej: "\<forall>m<20. attempt_rejected g (fst (draws m))"
  proof -
    have "add_connection_loop 20 0 draws g = Some g"
      by (rule add_connection_loop_all_rejected [OF n2]) (use perms rej in auto)
    with loop show ?thesis by simp
  qed
  have full: "length (connection_genome ?g') = length (connection_genome g)"
    if "no_valid_new_edge g"
    using no_valid_new_edge_outcome [OF that out] by simp
  from res keys stop none full show ?thesis by blast
qed


theorem add_connection_adds_at_most_one_witness:
  "wf_genome (two_input_genome example_config ''linear'' 1 0 0) \<and>
   2 \<le> length (node_genome (two_input_genome example_config ''linear'' 1 0 0)) \<and>
   no_valid_new_edge (two_input_genome example_config ''linear'' 1 0 0) \<and>
   (\<exists>g'. add_connection (two_input_genome example_config ''linear'' 1 0 0)
              (\<lambda>i. ([0, 1, 2], 0, 0)) = Some g' \<and>
         length (connection_genome g') = 2)"
proof -
  let ?g = "two_input_genome example_config ''linear'' 1 0 0"
  have h1: "wf_genome ?g" by code_simp
  have h2: "2 \<le> length (node_genome ?g)" by code_simp
  have p: "is_randperm (length (node_genome ?g)) [0, 1, 2]" by code_simp
  have h3: "\<forall>i<20. is_randperm (length (node_genome ?g)) (fst ((\<lambda>i. ([0, 1, 2], 0 :: real, 0 :: real)) i))"
    using p by simp
  have sat: "no_valid_new_edge ?g" by code_simp
  have len: "length (connection_genome ?g) = 2" by code_simp
  from add_connection_adds_at_most_one [OF h1 h2 h3] sat len h1 h2 show ?thesis by auto
qed

section \<open>Crossover\<close>

lemma inherit_connections_inherited:
  "list_all2 (connection_inherited cxs2) (fst (inherit_connections rnd c cxs1 cxs2)) cxs1"
proof (induction cxs1 arbitrary: c)
  case Nil
  then show ?case by simp
next
  case (Cons cx1 rest)
  show ?case
  proof (cases "connection_get cxs2 (cx_key cx1)")
    case None
    obtain r c' where rc: "inherit_connections rnd c rest cxs2 = (r, c')"
      by (cases "inherit_connections rnd c rest cxs2") auto
    with Cons.IH [of c] have tl: "list_all2 (connection_inherited cxs2) r rest" by simp
    have "connection_inherited cxs2 (connection_copy cx1) cx1"
      using None by (simp add: connection_inherited_def connection_copy_def new_connection_def)
    with tl show ?thesis by (simp add: None rc)
  next
    case (Some cx2)
    obtain r c' where rc: "inherit_connections rnd (Suc (Suc c)) rest cxs2 = (r, c')"
      by (cases "inherit_connections rnd (Suc (Suc c)) rest cxs2") auto
    with Cons.IH [of "Suc (Suc c)"] have tl: "list_all2 (connection_inherited cxs2) r rest" by simp
    have "connection_inherited cxs2 (connection_crossover cx1 cx2 (rnd c) (rnd (c + 1))) cx1"
      using Some
      by (simp add: connection_inherited_def connection_crossover_def new_connection_def)
    with tl show ?thesis by (simp add: Some rc)
  qed
qed

lemma inherit_nodes_inherited:
  "list_all2 (node_inherited nodes2) (fst (inherit_nodes rnd c nodes1 nodes2)) nodes1"
proof (induction nodes1 arbitrary: c)
  case Nil
  then show ?case by simp
next
  case (Cons node1 rest)
  show ?case
  proof (cases "find_node_with_id nodes2 (node_id node1)")
    case None
    obtain r c' where rc: "inherit_nodes rnd c rest nodes2 = (r, c')"
      by (cases "inherit_nodes rnd c rest nodes2") auto
    with Cons.IH [of c] have tl: "list_all2 (node_inherited nodes2) r rest" by simp
    have "node_inherited nodes2 (node_copy node1) node1"
      using None by (simp add: node_inherited_def node_copy_def new_node_def)
    with tl show ?thesis by (simp add: None rc)
  next
    case (Some node2)
    obtain r c' where rc: "inherit_nodes rnd (Suc (Suc c)) rest nodes2 = (r, c')"
      by (cases "inherit_nodes rnd (Suc (Suc c)) rest nodes2") auto
    with Cons.IH [of "Suc (Suc c)"] have tl: "list_all2 (node_inherited nodes2) r rest" by simp
    have "node_inherited nodes2 (node_crossover node1 node2 (rnd c) (rnd (c + 1))) node1"
      using Some by (simp add: node_inherited_def node_crossover_def new_node_def)
    with tl show ?thesis by (simp add: Some rc)
  qed
qed

lemma list_all2_connection_keys:
  "list_all2 (connection_inherited cxs2) cxs cxs1 \<Longrightarrow> map cx_key cxs = map cx_key cxs1"
  by (induction cxs cxs1 rule: list_all2_induct) (simp_all add: connection_inherited_def)

lemma list_all2_node_ids:
  "list_all2 (node_inherited nodes2) nodes nodes1 \<Longrightarrow> map node_id nodes = map node_id nodes1"
  by (induction nodes nodes1 rule: list_all2_induct) (simp_all add: node_inherited_def)

lemma node_inherited_relayer_iff:
  "node_inherited nodes2 (relayer ls n) n1 = node_inherited nodes2 n n1"
  by (simp add: node_inherited_def split: option.split)

lemma node_inherited_relayer:
  "list_all2 (node_inherited nodes2) nodes nodes1 \<Longrightarrow>
   list_all2 (node_inherited nodes2) (map (relayer ls) nodes) nodes1"
  by (simp add: list_all2_map1 node_inherited_relayer_iff)

lemma endpoints_exist_iff:
  "endpoints_exist g \<longleftrightarrow>
   (\<forall>k \<in> set (map cx_key (connection_genome g)).
      fst k \<in> set (map node_id (node_genome g)) \<and> snd k \<in> set (map node_id (node_genome g)))"
  by (simp add: endpoints_exist_def list_all_iff)

lemma choose_parents_cases:
  "(\<exists>c0. choose_parents A B rnd = (A, B, c0) \<and> fitness B \<le> fitness A) \<or>
   (\<exists>c0. choose_parents A B rnd = (B, A, c0) \<and> fitness A \<le> fitness B)"
  by (simp add: choose_parents_def)

text \<open>
  C4. For two genomes that satisfy the invariant of the data model, \<^verbatim>\<open>crossover\<close> returns a
  child for every sequence of draws. One of the two genomes is \<open>parent1\<close>, the other \<open>parent2\<close>,
  and \<open>parent1\<close> is at least as fit: it is the strictly fitter genome when there is one. The
  child has exactly the connection keys and the node keys of \<open>parent1\<close>, in the same order, so no
  key that only \<open>parent2\<close> has; gene by gene, weight and enabled flag (activation and type for a
  node) are those of \<open>parent1\<close> where \<open>parent2\<close> lacks the key, and otherwise each is the value
  of one parent or of the other.
\<close>

theorem crossover_inherits_from_fitter:
  assumes wfA: "wf_genome A" and wfB: "wf_genome B"
  shows "\<exists>child gl' parent1 parent2.
           crossover A B gl rnd = Some (child, gl') \<and>
           ((parent1, parent2) = (A, B) \<or> (parent1, parent2) = (B, A)) \<and>
           fitness parent2 \<le> fitness parent1 \<and>
           (fitness B < fitness A \<longrightarrow> parent1 = A) \<and>
           (fitness A < fitness B \<longrightarrow> parent1 = B) \<and>
           map cx_key (connection_genome child) = map cx_key (connection_genome parent1) \<and>
           map node_id (node_genome child) = map node_id (node_genome parent1) \<and>
           list_all2 (connection_inherited (connection_genome parent2))
             (connection_genome child) (connection_genome parent1) \<and>
           list_all2 (node_inherited (node_genome parent2))
             (node_genome child) (node_genome parent1)"
proof -
  have main: "\<exists>child gl'. crossover A B gl rnd = Some (child, gl') \<and>
           map cx_key (connection_genome child) = map cx_key (connection_genome p1) \<and>
           map node_id (node_genome child) = map node_id (node_genome p1) \<and>
           list_all2 (connection_inherited (connection_genome p2))
             (connection_genome child) (connection_genome p1) \<and>
           list_all2 (node_inherited (node_genome p2)) (node_genome child) (node_genome p1)"
    if cp: "choose_parents A B rnd = (p1, p2, c0)" and wf1: "wf_genome p1" for p1 p2 c0
  proof -
    obtain cxs c1 where ic: "inherit_connections rnd c0 (connection_genome p1) (connection_genome p2) = (cxs, c1)"
      by (cases "inherit_connections rnd c0 (connection_genome p1) (connection_genome p2)") auto
    obtain nodes c2 where inn: "inherit_nodes rnd c1 (node_genome p1) (node_genome p2) = (nodes, c2)"
      by (cases "inherit_nodes rnd c1 (node_genome p1) (node_genome p2)") auto
    have cx_inh: "list_all2 (connection_inherited (connection_genome p2)) cxs (connection_genome p1)"
      using inherit_connections_inherited [of "connection_genome p2" rnd c0 "connection_genome p1"] ic
      by simp
    have n_inh: "list_all2 (node_inherited (node_genome p2)) nodes (node_genome p1)"
      using inherit_nodes_inherited [of "node_genome p2" rnd c1 "node_genome p1"] inn by simp
    note keys = list_all2_connection_keys [OF cx_inh]
    note ids = list_all2_node_ids [OF n_inh]
    obtain empty_child gl1 where cw: "cppn_with (config A) gl [] [] = (empty_child, gl1)"
      by (cases "cppn_with (config A) gl [] []") auto
    let ?child0 = "empty_child\<lparr>connection_genome := cxs, node_genome := nodes,
                       parents := (cppn_id p1, cppn_id p2)\<rparr>"
    from wf1 have "endpoints_exist p1" by (simp add: wf_genome_def)
    then have "endpoints_exist ?child0"
      unfolding endpoints_exist_iff by (simp add: keys ids)
    then obtain child where up: "update_node_layers ?child0 = Some child"
      using update_node_layers_total by blast
    have child: "child = ?child0\<lparr>node_genome := map (relayer (feed_forward_layers ?child0)) (node_genome ?child0)\<rparr>"
      by (rule update_node_layers_eq [OF up])
    have res: "crossover A B gl rnd = Some (child, gl1)"
      using cp ic inn up cw by (simp add: crossover_def)
    have "connection_genome child = cxs" and "node_genome child = map (relayer (feed_forward_layers ?child0)) nodes"
      by (simp_all add: child)
    with res keys ids cx_inh node_inherited_relayer [OF n_inh] show ?thesis
      by (simp add: comp_def)
  qed
  from choose_parents_cases [of A B rnd] show ?thesis
  proof (elim disjE exE conjE)
    fix c0 assume cp: "choose_parents A B rnd = (A, B, c0)" and le: "fitness B \<le> fitness A"
    from main [OF cp wfA] obtain child gl' where
      "crossover A B gl rnd = Some (child, gl')"
      "map cx_key (connection_genome child) = map cx_key (connection_genome A)"
      "map node_id (node_genome child) = map node_id (node_genome A)"
      "list_all2 (connection_inherited (connection_genome B))
         (connection_genome child) (connection_genome A)"
      "list_all2 (node_inherited (node_genome B)) (node_genome child) (node_genome A)"
      by blast
    with le show ?thesis
      by (intro exI [of _ child] exI [of _ gl'] exI [of _ A] exI [of _ B]) simp
  next
    fix c0 assume cp: "choose_parents A B rnd = (B, A, c0)" and le: "fitness A \<le> fitness B"
    from main [OF cp wfB] obtain child gl' where
      "crossover A B gl rnd = Some (child, gl')"
      "map cx_key (connection_genome child) = map cx_key (connection_genome B)"
      "map node_id (node_genome child) = map node_id (node_genome B)"
      "list_all2 (connection_inherited (connection_genome A))
         (connection_genome child) (connection_genome B)"
      "list_all2 (node_inherited (node_genome A)) (node_genome child) (node_genome B)"
      by blast
    with le show ?thesis
      by (intro exI [of _ child] exI [of _ gl'] exI [of _ B] exI [of _ A]) simp
  qed
qed


theorem crossover_inherits_from_fitter_witness:
  "wf_genome ((two_input_genome example_config ''linear'' 1 0 0)\<lparr>fitness := 1\<rparr>) \<and>
   wf_genome stale_genome \<and>
   (\<exists>child gl'.
      crossover ((two_input_genome example_config ''linear'' 1 0 0)\<lparr>fitness := 1\<rparr>) stale_genome
        globals0 (\<lambda>i. 0) = Some (child, gl') \<and>
      map cx_key (connection_genome child) = [(- 1, - 3), (- 2, - 3)] \<and>
      map node_id (node_genome child) = [- 1, - 2, - 3])"
proof -
  let ?A = "(two_input_genome example_config ''linear'' 1 0 0)\<lparr>fitness := 1\<rparr>"
  have h1: "wf_genome ?A" by code_simp
  have h2: "wf_genome stale_genome" by code_simp
  have fit: "fitness stale_genome < fitness ?A" by code_simp
  have keys: "map cx_key (connection_genome ?A) = [(- 1, - 3), (- 2, - 3)]"
    and ids: "map node_id (node_genome ?A) = [- 1, - 2, - 3]"
    by code_simp+
  from crossover_inherits_from_fitter [OF h1 h2, of globals0 "\<lambda>i. 0"] fit keys ids h1 h2
  show ?thesis by metis
qed

section \<open>Genetic distance\<close>

lemma excess_self: "get_excess_connections cxs (map cx_key cxs) = []"
  by (simp add: get_excess_connections_def)

lemma disjoint_self: "get_disjoint_connections cxs (map cx_key cxs) = []"
  by (simp add: get_disjoint_connections_def)

lemma mean_weight_difference_self: "mean_weight_difference cxs cxs = 0"
proof -
  have "map (\<lambda>(o_cx, t_cx). \<bar>weight o_cx - weight t_cx\<bar>) (zip cxs cxs) = replicate (length cxs) 0"
    by (induction cxs) simp_all
  moreover have "sum_list (replicate (length cxs) (0::real)) = 0"
    by (induction cxs) simp_all
  ultimately show ?thesis by (simp add: mean_weight_difference_def Let_def)
qed

lemma count_different_fns_self: "count_different_fns nodes nodes = 0"
  by (induction nodes) (simp_all add: count_different_fns_def)

text \<open>
  C8. The genetic distance of a genome to itself is 0: no enabled connection is excess or
  disjoint, the mean absolute weight difference of the matching connections is 0, and no node
  differs in its activation, so the weighted sum is 0.
\<close>

theorem genetic_difference_self:
  "genetic_difference A A = 0 \<and>
   get_excess_connections (sort_key cx_key (enabled_connections A))
     (map cx_key (sort_key cx_key (enabled_connections A))) = [] \<and>
   get_disjoint_connections (sort_key cx_key (enabled_connections A))
     (map cx_key (sort_key cx_key (enabled_connections A))) = [] \<and>
   (case get_matching_connections (sort_key cx_key (enabled_connections A))
           (sort_key cx_key (enabled_connections A)) of
      (this_matching, other_matching) \<Rightarrow> mean_weight_difference this_matching other_matching) = 0 \<and>
   count_different_fns (node_genome A) (node_genome A) = 0"
proof -
  let ?S = "sort_key cx_key (enabled_connections A)"
  have e: "get_excess_connections ?S (map cx_key ?S) = []" by (rule excess_self)
  have d: "get_disjoint_connections ?S (map cx_key ?S) = []" by (rule disjoint_self)
  have m: "(case get_matching_connections ?S ?S of
              (this_matching, other_matching) \<Rightarrow>
                mean_weight_difference this_matching other_matching) = 0"
    by (simp add: get_matching_connections_def mean_weight_difference_self)
  have n: "count_different_fns (node_genome A) (node_genome A) = 0"
    by (rule count_different_fns_self)
  have "genetic_difference A A = 0"
    unfolding genetic_difference_def Let_def e d m n by simp
  with e d m n show ?thesis by simp
qed

theorem genetic_difference_self_witness: "genetic_difference stale_genome stale_genome = 0"
  using genetic_difference_self [of stale_genome] by simp

section \<open>The composite mutation\<close>

lemma scores_update_node_layers:
  "update_node_layers g = Some g' \<Longrightarrow> scores g' = scores g"
  using update_node_layers_frame(6,7,8) [of g g'] by (simp add: scores_def)

lemma scores_simps [simp]:
  "scores (g\<lparr>image := x\<rparr>) = scores g"
  "scores (g\<lparr>node_genome := ns\<rparr>) = scores g"
  "scores (g\<lparr>connection_genome := cs\<rparr>) = scores g"
  by (simp_all add: scores_def)

lemma scores_add_node:
  "add_node g gl perm k = Some (g', gl') \<Longrightarrow> scores g' = scores g"
  by (auto simp: add_node_def Let_def split: if_splits list.splits Option.bind_splits prod.splits
      dest!: scores_update_node_layers)

lemma scores_remove_node:
  "remove_node g perm = Some g' \<Longrightarrow> scores g' = scores g"
  by (auto simp: remove_node_def Let_def disable_invalid_connections_def
      split: if_splits list.splits Option.bind_splits dest!: scores_update_node_layers)

lemma scores_add_connection_loop:
  "add_connection_loop remaining i draws g = Some g' \<Longrightarrow> scores g' = scores g"
proof (induction remaining arbitrary: i)
  case 0
  then show ?case by simp
next
  case (Suc remaining)
  from Suc.prems show ?case
    by (auto split: prod.splits list.splits option.splits bool.splits if_splits Option.bind_splits
        dest!: scores_update_node_layers Suc.IH)
qed

lemma scores_add_connection:
  "add_connection g draws = Some g' \<Longrightarrow> scores g' = scores g"
  by (auto simp: add_connection_def dest!: scores_add_connection_loop)

lemma scores_disable_connection:
  "disable_connection g perm = Some g' \<Longrightarrow> scores g' = scores g"
  by (auto simp: disable_connection_def Let_def split: if_splits list.splits)

lemma scores_mutate_activations:
  "mutate_activations g prob draws = Some g' \<Longrightarrow> scores g' = scores g"
  by (auto simp: mutate_activations_def Let_def scores_def)

lemma scores_mutate_weights: "scores (mutate_weights g prob draws) = scores g"
  by (simp add: mutate_weights_def clamp_weights_def scores_def)


lemma scores_reset: "scores (reset_scores g) = (0, 0, 0)"
  by (simp add: reset_scores_def scores_def)

lemma reset_scores_idem: "reset_scores (reset_scores g) = reset_scores g"
  by (simp add: reset_scores_def)

lemma mutate_scores:
  assumes "mutate g gl rts d = Some (g', gl')"
  shows "scores g' = (0, 0, 0)"
proof -
  let ?g0 = "reset_scores g"
  obtain r_act r_weight r_add_cx r_add_node r_remove_node r_disable where
    rates: "(case rts of
              None \<Rightarrow>
                (prob_mutate_activation (config ?g0), prob_mutate_weight (config ?g0),
                 prob_add_connection (config ?g0), prob_add_node (config ?g0),
                 prob_remove_node (config ?g0), prob_disable_connection (config ?g0))
            | Some (r_act, r_weight, r_add_cx, r_add_node, r_remove_node, r_disable, _, _) \<Rightarrow>
                (r_act, r_weight, r_add_cx, r_add_node, r_remove_node, r_disable))
           = (r_act, r_weight, r_add_cx, r_add_node, r_remove_node, r_disable)"
    by (metis prod_cases6)
  from assms obtain g1 gl1 g2 g3 g4 g5 g6 where
    s1: "(if random_uniform (u_add_node d) 0 1 < r_add_node
          then add_node ?g0 gl (add_node_perm d) (add_node_fn d) else Some (?g0, gl)) = Some (g1, gl1)"
    and s2: "(if random_uniform (u_remove_node d) 0 1 < r_remove_node
              then remove_node g1 (remove_node_perm d) else Some g1) = Some g2"
    and s3: "(if random_uniform (u_add_connection d) 0 1 < r_add_cx
              then add_connection g2 (add_connection_draws d) else Some g2) = Some g3"
    and s4: "(if random_uniform (u_disable_connection d) 0 1 < r_disable
              then disable_connection g3 (disable_connection_perm d) else Some g3) = Some g4"
    and s5: "mutate_activations g4 r_act (activation_draws d) = Some g5"
    and s6: "update_node_layers (mutate_weights g5 r_weight (weight_draws d)) = Some g6"
    and res: "g' = g6\<lparr>image := None\<rparr>"
    unfolding mutate_def Let_def rates
    by (auto split: Option.bind_splits prod.splits)
  have "scores g1 = scores ?g0"
    using s1 by (auto split: if_splits dest: scores_add_node)
  moreover have "scores g2 = scores g1"
    using s2 by (auto split: if_splits dest: scores_remove_node)
  moreover have "scores g3 = scores g2"
    using s3 by (auto split: if_splits dest: scores_add_connection)
  moreover have "scores g4 = scores g3"
    using s4 by (auto split: if_splits dest: scores_disable_connection)
  moreover have "scores g5 = scores g4"
    using s5 by (rule scores_mutate_activations)
  moreover have "scores g6 = scores g5"
    using scores_update_node_layers [OF s6] by (simp add: scores_mutate_weights)
  ultimately show ?thesis using res by (simp add: scores_reset)
qed

text \<open>
  C10. \<^verbatim>\<open>mutate\<close> first sets fitness, adjusted fitness and novelty to 0 and applies every
  operator to the genome so reset: the call is the same as the call on the reset genome. No
  operator writes a score, so whatever the rates and the draws, a call that returns leaves all
  three scores at 0. The same holds for \<^verbatim>\<open>EvolutionaryAlgorithm.mutate\<close>.
\<close>

theorem mutate_resets_scores:
  "mutate g gl rts d = mutate (reset_scores g) gl rts d \<and>
   (\<forall>g' gl'. mutate g gl rts d = Some (g', gl') \<longrightarrow>
      fitness g' = 0 \<and> adjusted_fitness g' = 0 \<and> novelty g' = 0) \<and>
   (\<forall>g' gl'. ea_mutate g gl r d = Some (g', gl') \<longrightarrow>
      fitness g' = 0 \<and> adjusted_fitness g' = 0 \<and> novelty g' = 0)"
proof -
  have a: "mutate g gl rts d = mutate (reset_scores g) gl rts d"
    by (simp add: mutate_def reset_scores_idem)
  have b: "fitness g' = 0 \<and> adjusted_fitness g' = 0 \<and> novelty g' = 0"
    if "mutate g gl rts d = Some (g', gl')" for g gl rts g' gl'
    using mutate_scores [OF that] by (simp add: scores_def)
  have c: "fitness g' = 0 \<and> adjusted_fitness g' = 0 \<and> novelty g' = 0"
    if "ea_mutate g gl r d = Some (g', gl')" for g' gl'
    using that b unfolding ea_mutate_def by blast
  from a b c show ?thesis by blast
qed


theorem mutate_resets_scores_witness:
  "fitness scored_genome = 5 \<and> adjusted_fitness scored_genome = 4 \<and> novelty scored_genome = 3 \<and>
   (\<exists>g' gl'. mutate scored_genome globals0 (Some example_rates) example_draws = Some (g', gl') \<and>
      fitness g' = 0 \<and> adjusted_fitness g' = 0 \<and> novelty g' = 0 \<and>
      map node_id (node_genome g') = [- 1, - 2, - 3, 0])"
proof -
  have s: "fitness scored_genome = 5 \<and> adjusted_fitness scored_genome = 4 \<and> novelty scored_genome = 3"
    by code_simp
  have "mutate scored_genome globals0 (Some example_rates) example_draws \<noteq> None"
    by code_simp
  then obtain g' gl' where
    run: "mutate scored_genome globals0 (Some example_rates) example_draws = Some (g', gl')"
    by auto
  have "map_option (\<lambda>r. map node_id (node_genome (fst r)))
          (mutate scored_genome globals0 (Some example_rates) example_draws)
        = Some [- 1, - 2, - 3, 0]"
    by code_simp
  with run have ids: "map node_id (node_genome g') = [- 1, - 2, - 3, 0]" by simp
  from mutate_resets_scores [of scored_genome globals0 "Some example_rates" example_draws] run
  have "fitness g' = 0 \<and> adjusted_fitness g' = 0 \<and> novelty g' = 0" by blast
  with s run ids show ?thesis by auto
qed

section \<open>The genome the constructor builds\<close>

lemma two_input_layers:
  "feed_forward_layers ((two_input_genome cfg fn l w0 w1)\<lparr>cppn_id := c\<rparr>) = [[- 3]]"
  by code_simp

lemma two_input_update:
  "update_node_layers ((two_input_genome cfg fn l w0 w1)\<lparr>cppn_id := c\<rparr>)
   = Some ((two_input_genome cfg fn 1 w0 w1)\<lparr>cppn_id := c\<rparr>)"
  by (simp add: update_node_layers_def two_input_layers zero_input_layers_def assign_layer_def)
    (simp add: two_input_genome_def genome_of_def new_node_def)

lemma two_input_set_inputs:
  "af ''identity'' 0 = 0 \<Longrightarrow> \<not> use_radial_distance cfg \<Longrightarrow> \<not> use_input_bias cfg \<Longrightarrow>
   set_inputs af ((two_input_genome cfg fn l w0 w1)\<lparr>cppn_id := c\<rparr>) [[0], [0]]
   = Some (two_input_state cfg fn l w0 w1 c None)"
  by (simp add: set_inputs_def extend_inputs_def two_input_genome_def genome_of_def
      input_nodes_def new_node_def set_input_def put_node_def two_input_state_def)

lemma two_input_activate_in1:
  "af ''identity'' 0 = 0 \<Longrightarrow>
   activate_node af serial_init (- 1) (two_input_state cfg fn l w0 w1 c None)
   = Some (two_input_state cfg fn l w0 w1 c None)"
  by (simp add: activate_node_def find_node_with_id_def serial_init_def activate_def
      get_incoming_connections_def enabled_connections_def two_input_genome_def genome_of_def
      new_node_def new_connection_def put_node_def two_input_state_def)

lemma two_input_activate_in2:
  "af ''identity'' 0 = 0 \<Longrightarrow>
   activate_node af serial_init (- 2) (two_input_state cfg fn l w0 w1 c None)
   = Some (two_input_state cfg fn l w0 w1 c None)"
  by (simp add: activate_node_def find_node_with_id_def serial_init_def activate_def
      get_incoming_connections_def enabled_connections_def two_input_genome_def genome_of_def
      new_node_def new_connection_def put_node_def two_input_state_def)

lemma two_input_activate_out:
  "af fn 0 = 0 \<Longrightarrow>
   activate_node af serial_init (- 3) (two_input_state cfg fn l w0 w1 c None)
   = Some (two_input_state cfg fn l w0 w1 c (Some [0]))"
  by (simp add: activate_node_def find_node_with_id_def serial_init_def activate_def
      get_incoming_connections_def enabled_connections_def two_input_genome_def genome_of_def
      new_node_def new_connection_def put_node_def tensor_add_def tensor_scale_def
      two_input_state_def)

lemma two_input_state_ids:
  "get_ids_from_individual (two_input_state cfg fn l w0 w1 c s)
   = get_ids_from_individual ((two_input_genome cfg fn l w0 w1)\<lparr>cppn_id := c\<rparr>)"
  by (simp add: get_ids_from_individual_def two_input_genome_def genome_of_def
      input_nodes_def output_nodes_def new_node_def two_input_state_def)

lemma two_input_state_layers:
  "feed_forward_layers (two_input_state cfg fn l w0 w1 c s) = [[- 3]]"
  by (simp add: feed_forward_layers_def two_input_state_ids)
    (simp add: feed_forward_layers_def [symmetric] two_input_layers)

lemma two_input_state_inputs:
  "map node_id (input_nodes (two_input_state cfg fn l w0 w1 c s)) = [- 1, - 2]"
  by (simp add: input_nodes_def new_node_def two_input_state_def)

lemma two_input_state_stack:
  "stack_outputs (two_input_state cfg fn l w0 w1 c (Some [0])) = Some [[0]]"
  by (simp add: stack_outputs_def output_nodes_def new_node_def two_input_state_def)

lemma two_input_state_config: "config (two_input_state cfg fn l w0 w1 c s) = cfg"
  by (simp add: two_input_state_def two_input_genome_def genome_of_def)

lemma two_input_eval:
  assumes id0: "af ''identity'' 0 = 0" and fn0: "af fn 0 = 0" and n1: "num_outputs cfg = 1"
    and nr: "\<not> use_radial_distance cfg" and nb: "\<not> use_input_bias cfg"
  shows "eval_inputs af ((two_input_genome cfg fn l w0 w1)\<lparr>cppn_id := c\<rparr>) [[0], [0]]
         = Some ([[0]], two_input_state cfg fn l w0 w1 c (Some [0]))"
proof -
  have run: "run_layers (\<lambda>node_index. activate_node af serial_init)
               (map node_id (input_nodes (two_input_state cfg fn l w0 w1 c None))
                # feed_forward_layers (two_input_state cfg fn l w0 w1 c None))
               (two_input_state cfg fn l w0 w1 c None)
             = Some (two_input_state cfg fn l w0 w1 c (Some [0]))"
    using id0 fn0
    by (simp add: two_input_state_inputs two_input_state_layers two_input_activate_in1
        two_input_activate_in2 two_input_activate_out)
  have ff: "feed_forward af (two_input_state cfg fn l w0 w1 c None)
            = Some ([[0]], two_input_state cfg fn l w0 w1 c (Some [0]))"
    unfolding feed_forward_def run
    by (simp add: two_input_state_stack two_input_state_config n1)
  show ?thesis
    using id0 nr nb ff by (simp add: eval_inputs_def two_input_set_inputs)
qed

lemma initial_nodes:
  assumes "\<not> use_radial_distance cfg" "\<not> use_input_bias cfg" "length (color_mode cfg) = 1"
    "hidden_nodes_at_start cfg = 0" "output_activation cfg = Some fn"
  shows "initialize_node_genome cfg (count_inputs cfg) (length (color_mode cfg)) act_draw indexer
         = Some ([new_node (- 1) ''identity'' INPUT 0, new_node (- 2) ''identity'' INPUT 0,
                  new_node (- 3) fn OUTPUT 2], indexer)"
  using assms
  by (simp add: initialize_node_genome_def initial_output_nodes_def initial_input_nodes_def
      count_inputs_def upt_rec numeral_2_eq_2 numeral_3_eq_3)

lemma upto_0_2: "[0..2] = [0, 1, 2::int]" and upto_1_2: "[1..2] = [1, 2::int]"
  and upto_2_2: "[2..2] = [2::int]"
  by (simp_all add: upto.simps)

lemma initial_keys:
  "initial_connection_keys
     [new_node (- 1) ''identity'' INPUT 0, new_node (- 2) ''identity'' INPUT 0,
      new_node (- 3) fn OUTPUT 2] 2 = [(- 1, - 3), (- 2, - 3)]"
  by (simp add: initial_connection_keys_def upto_0_2 upto_1_2 upto_2_2 get_layer_def new_node_def)

lemma initial_connections:
  assumes "init_connection_probability cfg = 1" "rnd 1 \<le> 1" "rnd 3 \<le> 1"
  shows "initialize_connection_genome cfg
     [new_node (- 1) ''identity'' INPUT 0, new_node (- 2) ''identity'' INPUT 0,
      new_node (- 3) fn OUTPUT 2] rnd
     = Some [new_connection (- 1, - 3) (random_weight cfg (rnd 0)),
             new_connection (- 2, - 3) (random_weight cfg (rnd 2))]"
proof -
  have "get_output_layer_index [new_node (- 1) ''identity'' INPUT 0, new_node (- 2) ''identity'' INPUT 0,
      new_node (- 3) fn OUTPUT 2] = Some 2"
    by (simp add: get_output_layer_index_def new_node_def)
  then show ?thesis
    using assms
    by (simp add: initialize_connection_genome_def initial_keys enumerate_eq_zip upt_rec
        new_connection_def)
qed

lemma construct_two_inputs:
  assumes "\<not> use_radial_distance cfg" "\<not> use_input_bias cfg" "length (color_mode cfg) = 1"
    "hidden_nodes_at_start cfg = 0" "output_activation cfg = Some fn"
    "init_connection_probability cfg = 1" "rnd 1 \<le> 1" "rnd 3 \<le> 1"
  shows "cppn_init cfg gl act_draw rnd
         = Some ((two_input_genome cfg fn 2 (random_weight cfg (rnd 0)) (random_weight cfg (rnd 2)))
                    \<lparr>cppn_id := current_id gl\<rparr>,
                 gl\<lparr>current_id := current_id gl + 1\<rparr>)"
  using assms initial_nodes [OF assms(1-5), of act_draw "node_indexer gl"]
  by (simp add: cppn_init_def cppn_with_def initial_connections
      two_input_genome_def genome_of_def)

text \<open>
  C5, as amended. For a configuration with two inputs (no radial distance, no bias), one output,
  no hidden node at the start and \<^verbatim>\<open>init_connection_probability = 1.0\<close>, and for draws in
  \<open>[0, 1)\<close>, the constructor returns a genome with the nodes \<open>-1, -2\<close> (inputs) and \<open>-3\<close>
  (output) and exactly the two connections \<open>(-1, -3)\<close> and \<open>(-2, -3)\<close>, both enabled. The output
  node has layer 2, the layer the constructor creates it with; it has layer 1 once
  \<^verbatim>\<open>update_node_layers\<close> has run. With the identity as input activation and an output
  activation that maps 0 to 0, evaluating the genome at \<open>(0, 0)\<close> returns 0, for the weights
  drawn and for any other weights \<open>w0\<close>, \<open>w1\<close>.
\<close>

theorem construct_two_inputs_one_output:
  assumes cfg: "\<not> use_radial_distance cfg" "\<not> use_input_bias cfg" "length (color_mode cfg) = 1"
    "hidden_nodes_at_start cfg = 0" "output_activation cfg = Some fn"
    "init_connection_probability cfg = 1"
    and outs: "num_outputs cfg = 1"
    and draws: "\<forall>i. 0 \<le> rnd i \<and> rnd i < 1"
    and identity: "\<forall>x. af ''identity'' x = x"
    and linear: "af fn 0 = 0"
  shows "\<exists>g gl'. cppn_init cfg gl act_draw rnd = Some (g, gl') \<and>
           map node_id (node_genome g) = [- 1, - 2, - 3] \<and>
           map node_type (node_genome g) = [INPUT, INPUT, OUTPUT] \<and>
           map cx_key (connection_genome g) = [(- 1, - 3), (- 2, - 3)] \<and>
           map enabled (connection_genome g) = [True, True] \<and>
           layer_of g (- 3) = Some 2 \<and>
           (\<exists>g1. update_node_layers g = Some g1 \<and> layer_of g1 (- 3) = Some 1) \<and>
           (\<exists>g2. eval_inputs af g [[0], [0]] = Some ([[0]], g2)) \<and>
           (\<forall>w0 w1. \<exists>g2.
              eval_inputs af
                (g\<lparr>connection_genome := [new_connection (- 1, - 3) w0, new_connection (- 2, - 3) w1]\<rparr>)
                [[0], [0]] = Some ([[0]], g2))"
proof -
  let ?w0 = "random_weight cfg (rnd 0)" and ?w1 = "random_weight cfg (rnd 2)"
  let ?g = "(two_input_genome cfg fn 2 ?w0 ?w1)\<lparr>cppn_id := current_id gl\<rparr>"
  from draws have d: "rnd 1 \<le> 1" "rnd 3 \<le> 1" by (simp_all add: less_imp_le)
  have c: "cppn_init cfg gl act_draw rnd = Some (?g, gl\<lparr>current_id := current_id gl + 1\<rparr>)"
    by (rule construct_two_inputs [OF cfg d])
  have id0: "af ''identity'' 0 = 0" using identity by simp
  have shape: "map node_id (node_genome ?g) = [- 1, - 2, - 3]"
    "map node_type (node_genome ?g) = [INPUT, INPUT, OUTPUT]"
    "map cx_key (connection_genome ?g) = [(- 1, - 3), (- 2, - 3)]"
    "map enabled (connection_genome ?g) = [True, True]"
    "layer_of ?g (- 3) = Some 2"
    by (simp_all add: two_input_genome_def genome_of_def new_node_def new_connection_def
        layer_of_def find_node_with_id_def)
  have up: "update_node_layers ?g = Some ((two_input_genome cfg fn 1 ?w0 ?w1)\<lparr>cppn_id := current_id gl\<rparr>)"
    by (rule two_input_update)
  have up1: "layer_of ((two_input_genome cfg fn 1 ?w0 ?w1)\<lparr>cppn_id := current_id gl\<rparr>) (- 3) = Some 1"
    by (simp add: two_input_genome_def genome_of_def new_node_def layer_of_def find_node_with_id_def)
  have ev: "\<exists>g2. eval_inputs af ((two_input_genome cfg fn 2 w0 w1)\<lparr>cppn_id := current_id gl\<rparr>)
              [[0], [0]] = Some ([[0]], g2)" for w0 w1
    using two_input_eval [where af = af and fn = fn and cfg = cfg and l = 2 and ?w0.0 = w0
        and ?w1.0 = w1 and c = "current_id gl", OF id0 linear outs cfg(1,2)] by blast
  have re: "?g\<lparr>connection_genome := [new_connection (- 1, - 3) w0, new_connection (- 2, - 3) w1]\<rparr>
            = (two_input_genome cfg fn 2 w0 w1)\<lparr>cppn_id := current_id gl\<rparr>" for w0 w1
    by (simp add: two_input_genome_def genome_of_def)
  have ev2: "\<forall>w0 w1. \<exists>g2.
      eval_inputs af
        (?g\<lparr>connection_genome := [new_connection (- 1, - 3) w0, new_connection (- 2, - 3) w1]\<rparr>)
        [[0], [0]] = Some ([[0]], g2)"
    using ev by (simp only: re) blast
  have up2: "\<exists>g1. update_node_layers ?g = Some g1 \<and> layer_of g1 (- 3) = Some 1"
    using up up1 by blast
  note ev1 = ev [of ?w0 ?w1]
  from c shape up2 ev1 ev2 have
    "cppn_init cfg gl act_draw rnd = Some (?g, gl\<lparr>current_id := current_id gl + 1\<rparr>) \<and>
     map node_id (node_genome ?g) = [- 1, - 2, - 3] \<and>
     map node_type (node_genome ?g) = [INPUT, INPUT, OUTPUT] \<and>
     map cx_key (connection_genome ?g) = [(- 1, - 3), (- 2, - 3)] \<and>
     map enabled (connection_genome ?g) = [True, True] \<and>
     layer_of ?g (- 3) = Some 2 \<and>
     (\<exists>g1. update_node_layers ?g = Some g1 \<and> layer_of g1 (- 3) = Some 1) \<and>
     (\<exists>g2. eval_inputs af ?g [[0], [0]] = Some ([[0]], g2)) \<and>
     (\<forall>w0 w1. \<exists>g2.
        eval_inputs af
          (?g\<lparr>connection_genome := [new_connection (- 1, - 3) w0, new_connection (- 2, - 3) w1]\<rparr>)
          [[0], [0]] = Some ([[0]], g2))"
    by (intro conjI)
  then show ?thesis by - (rule exI, rule exI, assumption)
qed


theorem construct_two_inputs_one_output_witness:
  "\<not> use_radial_distance example_config \<and> \<not> use_input_bias example_config \<and>
   length (color_mode example_config) = 1 \<and> hidden_nodes_at_start example_config = 0 \<and>
   output_activation example_config = Some ''linear'' \<and>
   init_connection_probability example_config = 1 \<and> num_outputs example_config = 1 \<and>
   (\<exists>g gl'. cppn_init example_config globals0 (\<lambda>j. 0) (\<lambda>i. 1 / 2) = Some (g, gl') \<and>
      map cx_key (connection_genome g) = [(- 1, - 3), (- 2, - 3)] \<and>
      map enabled (connection_genome g) = [True, True] \<and>
      layer_of g (- 3) = Some 2 \<and>
      (\<exists>g2. eval_inputs (\<lambda>name x. x) g [[0], [0]] = Some ([[0]], g2)))"
proof -
  have c: "\<not> use_radial_distance example_config" "\<not> use_input_bias example_config"
    "length (color_mode example_config) = 1" "hidden_nodes_at_start example_config = 0"
    "output_activation example_config = Some ''linear''"
    "init_connection_probability example_config = 1"
    and n: "num_outputs example_config = 1"
    by (simp_all add: example_config_def)
  have d: "\<forall>i::nat. (0::real) \<le> 1 / 2 \<and> (1::real) / 2 < 1" by simp
  have i: "\<forall>x::real. (\<lambda>(name::string) x. x) ''identity'' x = x" by simp
  have l: "(\<lambda>(name::string) (x::real). x) ''linear'' 0 = 0" by simp
  from construct_two_inputs_one_output
    [where cfg = example_config and fn = "''linear''" and rnd = "\<lambda>i. 1 / 2"
      and af = "\<lambda>name x. x" and gl = globals0 and act_draw = "\<lambda>j. 0", OF c n d i l]
  have "\<exists>g gl'. cppn_init example_config globals0 (\<lambda>j. 0) (\<lambda>i. 1 / 2) = Some (g, gl') \<and>
      map cx_key (connection_genome g) = [(- 1, - 3), (- 2, - 3)] \<and>
      map enabled (connection_genome g) = [True, True] \<and>
      layer_of g (- 3) = Some 2 \<and>
      (\<exists>g2. eval_inputs (\<lambda>name x. x) g [[0], [0]] = Some ([[0]], g2))"
    by (elim exE conjE, intro exI conjI) assumption+
  with c n show ?thesis by (intro conjI)
qed

text \<open>
  C5 as stated fails in one point: on the configuration of the example (two inputs, one output, no
  hidden node, \<^verbatim>\<open>init_connection_probability = 1\<close>) the constructed genome has its output node
  on layer 2, not 1.
\<close>

theorem construct_output_layer_counterexample:
  "count_inputs example_config = 2 \<and> length (color_mode example_config) = 1 \<and>
   hidden_nodes_at_start example_config = 0 \<and> init_connection_probability example_config = 1 \<and>
   cppn_init example_config globals0 (\<lambda>j. 0) (\<lambda>i. 1 / 2)
     = Some (two_input_genome example_config ''linear'' 2 0 0,
             \<lparr>node_indexer = None, current_id = 2\<rparr>) \<and>
   layer_of (two_input_genome example_config ''linear'' 2 0 0) (- 3) = Some 2 \<and>
   layer_of (two_input_genome example_config ''linear'' 2 0 0) (- 3) \<noteq> Some 1"
  by code_simp


section \<open>The serial and the parallel path on a grid that is not square\<close>

text \<open>
  Both paths are followed on \<open>one_row_genome\<close>, with every activation function the identity and
  without normalisation: one row (\<^verbatim>\<open>res_h = 1\<close>), two columns (\<^verbatim>\<open>res_w = 2\<close>).
\<close>

lemmas one_row_defs =
  one_row_state_def one_row_genome_def two_input_genome_def genome_of_def example_config_def
  new_node_def new_connection_def

lemma one_row_fresh: "one_row_genome = one_row_state None None None"
  by (simp add: one_row_defs)

lemma one_row_layers: "feed_forward_layers (one_row_state a b s) = [[- 3]]"
proof -
  have "get_ids_from_individual (one_row_state a b s)
        = get_ids_from_individual ((two_input_genome example_config ''linear'' 1 1 0)\<lparr>cppn_id := 1\<rparr>)"
    by (simp add: get_ids_from_individual_def one_row_state_def one_row_genome_def
        two_input_genome_def genome_of_def input_nodes_def output_nodes_def new_node_def)
  then show ?thesis
    by (simp add: feed_forward_layers_def) (simp add: feed_forward_layers_def [symmetric] two_input_layers)
qed

lemma one_row_inputs: "map node_id (input_nodes (one_row_state a b s)) = [- 1, - 2]"
  by (simp add: input_nodes_def new_node_def one_row_state_def)

lemma one_row_set_inputs:
  "set_inputs (\<lambda>name v. v) (one_row_state a b s) [[x], [y]]
   = Some (one_row_state (Some [x]) (Some [y]) s)"
  by (simp add: set_inputs_def extend_inputs_def one_row_defs
      input_nodes_def set_input_def put_node_def)

lemma one_row_serial_in1:
  "activate_node (\<lambda>name v. v) serial_init (- 1) (one_row_state (Some a) b s)
   = Some (one_row_state (Some a) b s)"
  by (simp add: activate_node_def find_node_with_id_def serial_init_def activate_def
      get_incoming_connections_def enabled_connections_def put_node_def one_row_defs)

lemma one_row_serial_in2:
  "activate_node (\<lambda>name v. v) serial_init (- 2) (one_row_state a (Some b) s)
   = Some (one_row_state a (Some b) s)"
  by (simp add: activate_node_def find_node_with_id_def serial_init_def activate_def
      get_incoming_connections_def enabled_connections_def put_node_def one_row_defs)

lemma one_row_serial_out:
  "activate_node (\<lambda>name v. v) serial_init (- 3) (one_row_state (Some [x]) (Some [y]) s)
   = Some (one_row_state (Some [x]) (Some [y]) (Some [x]))"
  by (simp add: activate_node_def find_node_with_id_def serial_init_def activate_def
      get_incoming_connections_def enabled_connections_def put_node_def tensor_add_def
      tensor_scale_def one_row_defs)

lemma one_row_stack: "stack_outputs (one_row_state a b (Some s)) = Some [s]"
  by (simp add: stack_outputs_def output_nodes_def new_node_def one_row_state_def)

lemma one_row_config: "config (one_row_state a b s) = example_config"
  by (simp add: one_row_state_def one_row_genome_def two_input_genome_def genome_of_def)

lemma one_row_n_outputs: "n_outputs (one_row_state a b s) = 1" "n_inputs (one_row_state a b s) = 2"
  by (simp_all add: one_row_defs count_inputs_def)

lemma one_row_eval:
  "eval_inputs (\<lambda>name v. v) (one_row_state a b s) [[x], [y]]
   = Some ([[x]], one_row_state (Some [x]) (Some [y]) (Some [x]))"
  by (simp add: eval_inputs_def one_row_set_inputs feed_forward_def one_row_inputs one_row_layers
      one_row_serial_in1 one_row_serial_in2 one_row_serial_out one_row_stack one_row_config)
     (simp add: example_config_def)

lemma linspace_2: "linspace a b 2 = [a, b]" "linspace a b (Suc (Suc 0)) = [a, b]"
  by (simp_all add: linspace_def upt_rec numeral_2_eq_2)

lemma linspace_1: "linspace a b (Suc 0) = [a]"
  by (simp add: linspace_def)

lemma example_res: "res_h example_config = 1" "res_w example_config = 2"
  "color_mode example_config = ''L''" "\<not> normalize_outputs example_config"
  "\<not> use_radial_distance example_config" "\<not> use_input_bias example_config"
  by (simp_all add: example_config_def)

lemma one_row_serial_pixels:
  "serial_pixels (\<lambda>name v. v)
     (List.product (linspace (- 0.5) 0.5 (res_w (config one_row_genome)))
                   (linspace (- 0.5) 0.5 (res_h (config one_row_genome)))) one_row_genome
   = Some ([[- 1 / 2], [1 / 2]], one_row_state (Some [1 / 2]) (Some [- 1 / 2]) (Some [1 / 2]))"
  by (simp add: one_row_fresh one_row_config example_res linspace_2 linspace_1 one_row_eval)

lemma get_image_data_serial_raises: "get_image_data_serial af g = None"
  by (simp add: get_image_data_serial_def torch_reshape_def split: Option.bind_split prod.split)

lemma one_row_pixel_inputs:
  "initialize_inputs (Suc 0) 2 False False 2 = Some [[- 1 / 2, - 1 / 2], [- 1 / 2, 1 / 2]]"
  by (simp add: initialize_inputs_def linspace_1 linspace_2 this_pixel_def upt_rec numeral_2_eq_2)

lemma one_row_reset:
  "reset_activations (one_row_state a b s)
   = one_row_state (Some [1 / 2, 1 / 2]) (Some [1 / 2, 1 / 2]) (Some [1 / 2, 1 / 2])"
  by (simp add: reset_activations_def one_row_defs numeral_2_eq_2)

lemma one_row_parallel_in1:
  "activate_node (\<lambda>name v. v) (parallel_init [p, q] 2 0) (- 1) (one_row_state a b s)
   = Some (one_row_state (Some p) b s)"
  by (simp add: activate_node_def find_node_with_id_def parallel_init_def activate_def
      get_incoming_connections_def enabled_connections_def put_node_def one_row_defs)

lemma one_row_parallel_in2:
  "activate_node (\<lambda>name v. v) (parallel_init [p, q] 2 (Suc 0)) (- 2) (one_row_state a b s)
   = Some (one_row_state a (Some q) s)"
  by (simp add: activate_node_def find_node_with_id_def parallel_init_def activate_def
      get_incoming_connections_def enabled_connections_def put_node_def one_row_defs)

lemma one_row_parallel_out:
  "activate_node (\<lambda>name v. v) (parallel_init pin 2 0) (- 3)
     (one_row_state (Some [x0, x1]) (Some [y0, y1]) s)
   = Some (one_row_state (Some [x0, x1]) (Some [y0, y1]) (Some [x0, x1]))"
  by (simp add: activate_node_def find_node_with_id_def parallel_init_def activate_def
      get_incoming_connections_def enabled_connections_def put_node_def tensor_add_def
      tensor_scale_def one_row_defs numeral_2_eq_2)

lemma one_row_parallel:
  "get_image_data_parallel (\<lambda>name v. v) (\<lambda>img. img) one_row_genome
   = Some ((one_row_state (Some [- 1 / 2, - 1 / 2]) (Some [- 1 / 2, 1 / 2]) (Some [- 1 / 2, - 1 / 2]))
             \<lparr>image := Some ([1, 2], [- 1 / 2, - 1 / 2])\<rparr>)"
  by (simp add: get_image_data_parallel_def one_row_fresh one_row_config example_res
      one_row_n_outputs one_row_pixel_inputs one_row_reset one_row_inputs one_row_layers
      one_row_parallel_in1 one_row_parallel_in2 one_row_parallel_out one_row_stack reshape_def
      torch_reshape_def)

lemma one_row_current: "update_node_layers one_row_genome = Some one_row_genome"
  using two_input_update [where cfg = example_config and fn = "''linear''" and l = 1 and ?w0.0 = 1 and ?w1.0 = 0 and c = 1]
  by (simp add: one_row_genome_def two_input_genome_def genome_of_def)

text \<open>
  C1. The claim: for every genome without recurrent edges and every configuration, evaluating one
  coordinate at a time over the grid (\<^verbatim>\<open>get_image_data_serial\<close>) and evaluating the whole grid
  as one batch (\<^verbatim>\<open>get_image_data_parallel\<close>) give equal arrays: for each pixel position and each
  output node the two paths compute the same value. The code at \<open>one_row_genome\<close>, whose layers
  are current and whose output node repeats the first input:

    \<^item> the serial path calls \<^verbatim>\<open>eval([x, y])\<close> with \<^verbatim>\<open>x\<close> in the outer loop, so the values it
      collects are \<open>-1/2\<close> for the pixel \<open>(x, y) = (-1/2, -1/2)\<close> and \<open>1/2\<close> for the pixel
      \<open>(x, y) = (1/2, -1/2)\<close>;
    \<^item> it then calls \<^verbatim>\<open>torch.reshape\<close> with the Python list of these values, which raises: the
      serial path returns no array;
    \<^item> the parallel path stores \<^verbatim>\<open>[y_vals[y], x_vals[x]]\<close> for a pixel, so the first input node
      receives \<^verbatim>\<open>y\<close>, and it returns the image \<open>[[-1/2, -1/2]]\<close> of shape \<^verbatim>\<open>(res_h, res_w)\<close>: at
      the pixel \<open>(x, y) = (1/2, -1/2)\<close> its value is \<open>-1/2\<close>, where the serial path computed \<open>1/2\<close>.
\<close>

theorem serial_and_parallel_images_differ:
  "update_node_layers one_row_genome = Some one_row_genome
   \<and> map_option fst
         (serial_pixels (\<lambda>name v. v)
            (List.product (linspace (- 0.5) 0.5 (res_w (config one_row_genome)))
                          (linspace (- 0.5) 0.5 (res_h (config one_row_genome)))) one_row_genome)
       = Some [[- 1 / 2], [1 / 2]]
   \<and> get_image_data_serial (\<lambda>name v. v) one_row_genome = None
   \<and> map_option image (get_image_data_parallel (\<lambda>name v. v) (\<lambda>img. img) one_row_genome)
       = Some (Some ([1, 2], [- 1 / 2, - 1 / 2]))"
  using one_row_current one_row_serial_pixels one_row_parallel
  by (simp add: get_image_data_serial_raises)

end
